theory Spec2Isabelle
  imports Main "HOL-Library.Sublist"
begin

section \<open>Data model\<close>

text \<open>
  The relational store behind the Prisma client, as the code uses it: leads, transactions,
  meetings and queued WhatsApp messages. Status columns are closed sets of labels; time
  stamps are milliseconds since the epoch (what \<open>Date.getTime()\<close> returns); row ids are
  natural numbers handed out by a counter of the store (the primary keys Prisma generates).
\<close>

datatype message_type = LEAD_WELCOME | PAYMENT_ABANDONED | PAYMENT_CONFIRMED

datatype message_status = PENDING | SENT | CANCELLED | FAILED

datatype transaction_status =
  requires_payment_method | requires_confirmation | processing | requires_action
  | requires_capture | succeeded | canceled

datatype payment_method = pix | card

text \<open>
  A value handed to JavaScript's \<open>new Date(v)\<close>. A Date object carries a time value that
  is a number of milliseconds or NaN (\<open>None\<close>, the "Invalid Date").
\<close>

datatype jsval = JUndefined | JNull | JDate "int option" | JString string

record lead =
  l_id :: nat
  l_nome :: string
  l_whatsapp :: string
  l_stage :: string

record transaction =
  t_id :: nat
  t_lead_id :: nat
  t_affiliate_id :: "nat option"
  t_stripe_payment_intent :: "string option"
  t_payment_method :: payment_method
  t_status :: transaction_status
  t_created_at :: int
  t_scheduled_date :: jsval
  t_scheduled_time :: jsval

record meeting =
  mt_id :: nat
  mt_transaction_id :: nat
  mt_lead_id :: nat
  mt_affiliate_id :: "nat option"
  mt_meeting_date :: jsval
  mt_meeting_time :: jsval
  mt_status :: string
  mt_created_at :: int

record whatsAppMessage =
  m_id :: nat
  m_lead_id :: nat
  m_phone :: string
  m_message_type :: message_type
  m_status :: message_status
  m_send_after :: int
  m_message_text :: "string option"
  m_sent_at :: "int option"
  m_error :: "string option"
  m_updated_at :: "int option"

record store =
  leads :: "lead list"
  transactions :: "transaction list"
  meetings :: "meeting list"
  messages :: "whatsAppMessage list"
  next_id :: nat

section \<open>Store operations (the Prisma calls the code makes)\<close>

text \<open>\<open>findFirst\<close>: the first row, in table order, that satisfies the filter.\<close>

definition whatsAppMessage_findFirst :: "(whatsAppMessage \<Rightarrow> bool) \<Rightarrow> store \<Rightarrow> whatsAppMessage option" where
  "whatsAppMessage_findFirst P s = List.find P (messages s)"

definition transaction_findFirst :: "(transaction \<Rightarrow> bool) \<Rightarrow> store \<Rightarrow> transaction option" where
  "transaction_findFirst P s = List.find P (transactions s)"

text \<open>\<open>create\<close>: a new PENDING row with a fresh id, appended to the table.\<close>

definition whatsAppMessage_create ::
  "nat \<Rightarrow> string \<Rightarrow> message_type \<Rightarrow> int \<Rightarrow> store \<Rightarrow> whatsAppMessage \<times> store" where
  "whatsAppMessage_create leadId phone ty sendAfter s =
     (let m = \<lparr> m_id = next_id s, m_lead_id = leadId, m_phone = phone, m_message_type = ty,
                m_status = PENDING, m_send_after = sendAfter, m_message_text = None,
                m_sent_at = None, m_error = None, m_updated_at = None \<rparr>
      in (m, s\<lparr> messages := messages s @ [m], next_id := Suc (next_id s) \<rparr>))"

text \<open>\<open>updateMany\<close>: every row matching the filter is rewritten; the count of them is returned.\<close>

definition whatsAppMessage_updateMany ::
  "(whatsAppMessage \<Rightarrow> bool) \<Rightarrow> (whatsAppMessage \<Rightarrow> whatsAppMessage) \<Rightarrow> store \<Rightarrow> nat \<times> store" where
  "whatsAppMessage_updateMany P f s =
     (length (filter P (messages s)),
      s\<lparr> messages := map (\<lambda>m. if P m then f m else m) (messages s) \<rparr>)"

text \<open>
  \<open>update({ where: { id } })\<close>: the row with that primary key is rewritten, whatever its
  other columns hold. No row of these tables is ever deleted by the code, so the
  record-not-found error of Prisma does not arise for a row that was read before.
\<close>

definition whatsAppMessage_update ::
  "nat \<Rightarrow> (whatsAppMessage \<Rightarrow> whatsAppMessage) \<Rightarrow> store \<Rightarrow> store" where
  "whatsAppMessage_update i f s =
     s\<lparr> messages := map (\<lambda>m. if m_id m = i then f m else m) (messages s) \<rparr>"

definition transaction_update ::
  "nat \<Rightarrow> (transaction \<Rightarrow> transaction) \<Rightarrow> store \<Rightarrow> store" where
  "transaction_update i f s =
     s\<lparr> transactions := map (\<lambda>t. if t_id t = i then f t else t) (transactions s) \<rparr>"

definition lead_update :: "nat \<Rightarrow> (lead \<Rightarrow> lead) \<Rightarrow> store \<Rightarrow> store" where
  "lead_update i f s = s\<lparr> leads := map (\<lambda>l. if l_id l = i then f l else l) (leads s) \<rparr>"

section \<open>Queue writer (utils/messageQueue.js)\<close>

definition WELCOME_MESSAGE_DELAY_MS :: int where
  "WELCOME_MESSAGE_DELAY_MS = 2 * 60 * 1000"

definition cancelPendingWelcomeMessage :: "nat \<Rightarrow> store \<Rightarrow> nat \<times> store" where
  "cancelPendingWelcomeMessage leadId s =
     whatsAppMessage_updateMany
       (\<lambda>m. m_lead_id m = leadId \<and> m_message_type m = LEAD_WELCOME \<and> m_status m = PENDING)
       (\<lambda>m. m\<lparr> m_status := CANCELLED \<rparr>) s"

definition cancelPendingAbandonedMessage :: "nat \<Rightarrow> store \<Rightarrow> nat \<times> store" where
  "cancelPendingAbandonedMessage leadId s =
     whatsAppMessage_updateMany
       (\<lambda>m. m_lead_id m = leadId \<and> m_message_type m = PAYMENT_ABANDONED \<and> m_status m = PENDING)
       (\<lambda>m. m\<lparr> m_status := CANCELLED \<rparr>) s"

text \<open>
  Each queue function takes the clock reading \<open>now\<close> (\<open>Date.now()\<close>) and the lead, and
  returns the created row (\<open>None\<close> for JavaScript's \<open>null\<close>) with the new store.

  A queue function first reads (\<open>findFirst\<close>) and then, after an \<open>await\<close>, writes. The
  reads and the rest of the function are separate definitions: the function \<open>_after\<close> is
  what the code does once its reads have answered, on the store as it is by then. The
  queue function itself is the run in which nothing else touches the store in between.
\<close>

definition findExistingWelcome :: "lead \<Rightarrow> store \<Rightarrow> whatsAppMessage option" where
  "findExistingWelcome ld s =
     whatsAppMessage_findFirst
       (\<lambda>m. m_lead_id m = l_id ld \<and> m_message_type m = LEAD_WELCOME
             \<and> (m_status m = PENDING \<or> m_status m = SENT)) s"

definition queueLeadWelcomeMessage_after ::
  "whatsAppMessage option \<Rightarrow> int \<Rightarrow> lead \<Rightarrow> store \<Rightarrow> whatsAppMessage option \<times> store" where
  "queueLeadWelcomeMessage_after existing now ld s =
     (case existing of
        Some e \<Rightarrow> (None, s)
      | None \<Rightarrow>
          (let sendAfter = now + WELCOME_MESSAGE_DELAY_MS;
               (message, s') = whatsAppMessage_create (l_id ld) (l_whatsapp ld) LEAD_WELCOME sendAfter s
           in (Some message, s')))"

definition queueLeadWelcomeMessage :: "int \<Rightarrow> lead \<Rightarrow> store \<Rightarrow> whatsAppMessage option \<times> store" where
  "queueLeadWelcomeMessage now ld s =
     queueLeadWelcomeMessage_after (findExistingWelcome ld s) now ld s"

definition findSuccessfulPayment :: "lead \<Rightarrow> store \<Rightarrow> transaction option" where
  "findSuccessfulPayment ld s =
     transaction_findFirst (\<lambda>t. t_lead_id t = l_id ld \<and> t_status t = succeeded) s"

definition findExistingAbandoned :: "lead \<Rightarrow> store \<Rightarrow> whatsAppMessage option" where
  "findExistingAbandoned ld s =
     whatsAppMessage_findFirst
       (\<lambda>m. m_lead_id m = l_id ld \<and> m_message_type m = PAYMENT_ABANDONED
             \<and> (m_status m = PENDING \<or> m_status m = SENT)) s"

definition queuePaymentAbandonedMessage_after ::
  "transaction option \<Rightarrow> whatsAppMessage option \<Rightarrow> int \<Rightarrow> lead \<Rightarrow> store
   \<Rightarrow> whatsAppMessage option \<times> store" where
  "queuePaymentAbandonedMessage_after successfulPayment existing now ld s =
     (case successfulPayment of
        Some p \<Rightarrow> (None, s)
      | None \<Rightarrow>
          (case existing of
             Some e \<Rightarrow> (None, s)
           | None \<Rightarrow>
               (let (n1, s1) = cancelPendingWelcomeMessage (l_id ld) s;
                    (message, s2) = whatsAppMessage_create (l_id ld) (l_whatsapp ld) PAYMENT_ABANDONED now s1
                in (Some message, s2))))"

definition queuePaymentAbandonedMessage :: "int \<Rightarrow> lead \<Rightarrow> store \<Rightarrow> whatsAppMessage option \<times> store" where
  "queuePaymentAbandonedMessage now ld s =
     queuePaymentAbandonedMessage_after (findSuccessfulPayment ld s) (findExistingAbandoned ld s) now ld s"

definition findExistingConfirmed :: "lead \<Rightarrow> store \<Rightarrow> whatsAppMessage option" where
  "findExistingConfirmed ld s =
     whatsAppMessage_findFirst
       (\<lambda>m. m_lead_id m = l_id ld \<and> m_message_type m = PAYMENT_CONFIRMED
             \<and> (m_status m = PENDING \<or> m_status m = SENT)) s"

definition queuePaymentConfirmedMessage_after ::
  "whatsAppMessage option \<Rightarrow> int \<Rightarrow> lead \<Rightarrow> store \<Rightarrow> whatsAppMessage option \<times> store" where
  "queuePaymentConfirmedMessage_after existing now ld s =
     (case existing of
        Some e \<Rightarrow> (None, s)
      | None \<Rightarrow>
          (let (n1, s1) = cancelPendingWelcomeMessage (l_id ld) s;
               (n2, s2) = cancelPendingAbandonedMessage (l_id ld) s1;
               (message, s3) = whatsAppMessage_create (l_id ld) (l_whatsapp ld) PAYMENT_CONFIRMED now s2
           in (Some message, s3)))"

definition queuePaymentConfirmedMessage :: "int \<Rightarrow> lead \<Rightarrow> store \<Rightarrow> whatsAppMessage option \<times> store" where
  "queuePaymentConfirmedMessage now ld s =
     queuePaymentConfirmedMessage_after (findExistingConfirmed ld s) now ld s"

section \<open>Message templates (utils/whatsapp.js)\<close>

text \<open>
  What the templates take from the JavaScript runtime and cannot be read off the
  repository: \<open>Date.parse\<close> on a string, and the pt-BR renderings of a valid time value by
  \<open>toLocaleDateString\<close> (weekday, day, month) and \<open>toLocaleTimeString\<close> (hour, minute).
  The hour of day in America/Sao_Paulo, which \<open>getGreeting\<close> reads from the clock, is a
  parameter of the templates.
\<close>

record js_runtime =
  parseDate :: "string \<Rightarrow> int option"
  formatDate_ptBR :: "int \<Rightarrow> string"
  formatTime_ptBR :: "int \<Rightarrow> string"

definition getGreeting :: "nat \<Rightarrow> string" where
  "getGreeting hour =
     (if hour \<ge> 5 \<and> hour < 12 then ''Bom dia''
      else if hour \<ge> 12 \<and> hour < 18 then ''Boa tarde''
      else ''Boa noite'')"

definition getFirstName :: "string \<Rightarrow> string" where
  "getFirstName fullName = takeWhile (\<lambda>c. c \<noteq> CHR '' '') fullName"

text \<open>\<open>toLowerCase\<close> on the greetings, which are ASCII.\<close>

definition toLowerCase :: "string \<Rightarrow> string" where
  "toLowerCase str =
     map (\<lambda>c. let n = (of_char c :: nat) in if 65 \<le> n \<and> n \<le> 90 then char_of (n + 32) else c) str"

text \<open>
  \<open>new Date(v)\<close>: the time value of the new Date object. \<open>undefined\<close> gives NaN,
  \<open>null\<close> gives 0, a Date object gives its own time value, a string is parsed.
\<close>

fun newDate :: "js_runtime \<Rightarrow> jsval \<Rightarrow> int option" where
  "newDate rt JUndefined = None"
| "newDate rt JNull = Some 0"
| "newDate rt (JDate tv) = tv"
| "newDate rt (JString str) = parseDate rt str"

text \<open>
  \<open>toLocaleDateString\<close> and \<open>toLocaleTimeString\<close> return the string "Invalid Date" on a
  Date whose time value is NaN; they do not throw.
\<close>

definition toLocaleDateString :: "js_runtime \<Rightarrow> int option \<Rightarrow> string" where
  "toLocaleDateString rt tv = (case tv of None \<Rightarrow> ''Invalid Date'' | Some t \<Rightarrow> formatDate_ptBR rt t)"

definition toLocaleTimeString :: "js_runtime \<Rightarrow> int option \<Rightarrow> string" where
  "toLocaleTimeString rt tv = (case tv of None \<Rightarrow> ''Invalid Date'' | Some t \<Rightarrow> formatTime_ptBR rt t)"

definition leadWelcome :: "nat \<Rightarrow> string \<Rightarrow> string" where
  "leadWelcome hour nome =
     (let greeting = getGreeting hour; firstName = getFirstName nome
      in ''Ola '' @ firstName @ '', '' @ toLowerCase greeting
         @ '', tudo bom? Vi que voce se cadastrou pra otimizacao, se tiver algum problema ou duvida pode me avisar'')"

definition paymentAbandoned :: "nat \<Rightarrow> string \<Rightarrow> string" where
  "paymentAbandoned hour nome =
     (let greeting = getGreeting hour; firstName = getFirstName nome
      in ''Ola '' @ firstName @ '', '' @ toLowerCase greeting
         @ '', tudo bom? Vi que voce gerou um pagamento mas nao confirmou, se tiver tido algum problema ou tiver alguma duvida, so falar'')"

definition paymentConfirmed :: "js_runtime \<Rightarrow> nat \<Rightarrow> string \<Rightarrow> jsval \<Rightarrow> jsval \<Rightarrow> string" where
  "paymentConfirmed rt hour nome meetingDate meetingTime =
     (let greeting = getGreeting hour; firstName = getFirstName nome;
          dateObj = newDate rt meetingDate;
          formattedDate = toLocaleDateString rt dateObj;
          timeObj = newDate rt meetingTime;
          formattedTime = toLocaleTimeString rt timeObj
      in ''Ola '' @ firstName @ '', '' @ toLowerCase greeting
         @ '', tudo bom? Vi que voce efetivou a compra da otimizacao, seu horario e as ''
         @ formattedTime
         @ '' e demoramos 4 horas pra fazer a otimizacao, caso queira remarcar, so me avisar, te espero no dia ''
         @ formattedDate @ '' as '' @ formattedTime @ '' pelo discord, forte abraco'')"

section \<open>Queue processor (the process-whatsapp-queue cron handler)\<close>

text \<open>
  A row of the \<open>findMany\<close> with its \<open>include\<close>: the message, its lead, and under the lead
  the latest transaction and the latest meeting (\<open>orderBy created_at desc, take 1\<close>), each
  a list of at most one element. Rows with equal keys keep their table order.
\<close>

record lead_included =
  li_lead :: lead
  li_transactions :: "transaction list"
  li_meetings :: "meeting list"

record pendingMessage =
  pm_msg :: whatsAppMessage
  pm_lead :: "lead_included option"

definition include_lead :: "store \<Rightarrow> nat \<Rightarrow> lead_included option" where
  "include_lead s leadId =
     map_option
       (\<lambda>l. \<lparr> li_lead = l,
              li_transactions =
                take 1 (sort_key (\<lambda>t. - t_created_at t) (filter (\<lambda>t. t_lead_id t = leadId) (transactions s))),
              li_meetings =
                take 1 (sort_key (\<lambda>m. - mt_created_at m) (filter (\<lambda>m. mt_lead_id m = leadId) (meetings s))) \<rparr>)
       (List.find (\<lambda>l. l_id l = leadId) (leads s))"

definition findPendingMessages :: "int \<Rightarrow> store \<Rightarrow> pendingMessage list" where
  "findPendingMessages now s =
     map (\<lambda>m. \<lparr> pm_msg = m, pm_lead = include_lead s (m_lead_id m) \<rparr>)
       (take 20 (sort_key m_send_after
          (filter (\<lambda>m. m_status m = PENDING \<and> m_send_after m \<le> now) (messages s))))"

text \<open>
  \<open>shouldCancelMessage\<close> reads the snapshot of the lead and, for the already-sent check,
  the store as it is when the message is processed. The result is the reason, or \<open>None\<close>
  for \<open>null\<close>.
\<close>

definition shouldCancelMessage :: "store \<Rightarrow> whatsAppMessage \<Rightarrow> lead_included \<Rightarrow> string option" where
  "shouldCancelMessage s msg ld =
     (let latestTransaction = (case li_transactions ld of [] \<Rightarrow> None | t # _ \<Rightarrow> Some t);
          hasPaymentAttempt = (latestTransaction \<noteq> None);
          paymentSucceeded = (map_option t_status latestTransaction = Some succeeded);
          existingSent =
            whatsAppMessage_findFirst
              (\<lambda>m. m_lead_id m = m_lead_id msg \<and> m_message_type m = m_message_type msg
                    \<and> m_status m = SENT \<and> m_id m \<noteq> m_id msg) s;
          afterSwitch = (if existingSent \<noteq> None then Some ''already_sent'' else None)
      in case m_message_type msg of
           LEAD_WELCOME \<Rightarrow>
             if hasPaymentAttempt then Some ''payment_attempted''
             else if paymentSucceeded then Some ''payment_succeeded''
             else afterSwitch
         | PAYMENT_ABANDONED \<Rightarrow>
             if paymentSucceeded then Some ''payment_succeeded'' else afterSwitch
         | PAYMENT_CONFIRMED \<Rightarrow> afterSwitch)"

definition generateMessageText ::
  "js_runtime \<Rightarrow> nat \<Rightarrow> whatsAppMessage \<Rightarrow> lead_included \<Rightarrow> string option" where
  "generateMessageText rt hour msg ld =
     (case m_message_type msg of
        LEAD_WELCOME \<Rightarrow> Some (leadWelcome hour (l_nome (li_lead ld)))
      | PAYMENT_ABANDONED \<Rightarrow> Some (paymentAbandoned hour (l_nome (li_lead ld)))
      | PAYMENT_CONFIRMED \<Rightarrow>
          (case li_meetings ld of
             [] \<Rightarrow> None
           | meeting # _ \<Rightarrow>
               Some (paymentConfirmed rt hour (l_nome (li_lead ld))
                       (mt_meeting_date meeting) (mt_meeting_time meeting))))"

text \<open>The delivery client answers with success or with a failure reason.\<close>

datatype send_result = Success | Failure string

record results =
  processed :: nat
  sent :: nat
  failed :: nat
  cancelled :: nat

text \<open>
  The body of the loop for one message read at the start of the pass. A message whose
  lead is missing makes \<open>shouldCancelMessage\<close> throw (a property read on \<open>null\<close>); the
  \<open>catch\<close> block then marks the message FAILED with the error's message.
\<close>

definition processMessage ::
  "js_runtime \<Rightarrow> nat \<Rightarrow> (string \<Rightarrow> string \<Rightarrow> send_result) \<Rightarrow> int \<Rightarrow> pendingMessage
   \<Rightarrow> results \<times> store \<Rightarrow> results \<times> store" where
  "processMessage rt hour sendWhatsAppMessage now pm acc =
     (let msg = pm_msg pm;
          r = (fst acc)\<lparr> processed := processed (fst acc) + 1 \<rparr>;
          s = snd acc
      in case pm_lead pm of
           None \<Rightarrow>
             (r\<lparr> failed := failed r + 1 \<rparr>,
              whatsAppMessage_update (m_id msg)
                (\<lambda>m. m\<lparr> m_status := FAILED, m_error := Some ''Cannot read properties of null (reading 'transactions')'', m_updated_at := Some now \<rparr>) s)
         | Some ld \<Rightarrow>
             (case shouldCancelMessage s msg ld of
                Some shouldCancel \<Rightarrow>
                  (r\<lparr> cancelled := cancelled r + 1 \<rparr>,
                   whatsAppMessage_update (m_id msg)
                     (\<lambda>m. m\<lparr> m_status := CANCELLED, m_updated_at := Some now \<rparr>) s)
              | None \<Rightarrow>
                  (case generateMessageText rt hour msg ld of
                     None \<Rightarrow>
                       (r\<lparr> failed := failed r + 1 \<rparr>,
                        whatsAppMessage_update (m_id msg)
                          (\<lambda>m. m\<lparr> m_status := FAILED,
                                   m_error := Some ''Could not generate message text'',
                                   m_updated_at := Some now \<rparr>) s)
                   | Some messageText \<Rightarrow>
                       if messageText = [] then
                         (r\<lparr> failed := failed r + 1 \<rparr>,
                          whatsAppMessage_update (m_id msg)
                            (\<lambda>m. m\<lparr> m_status := FAILED,
                                     m_error := Some ''Could not generate message text'',
                                     m_updated_at := Some now \<rparr>) s)
                       else
                         (case sendWhatsAppMessage (m_phone msg) messageText of
                            Success \<Rightarrow>
                              (r\<lparr> sent := sent r + 1 \<rparr>,
                               whatsAppMessage_update (m_id msg)
                                 (\<lambda>m. m\<lparr> m_status := SENT, m_message_text := Some messageText,
                                          m_sent_at := Some now, m_updated_at := Some now \<rparr>) s)
                          | Failure err \<Rightarrow>
                              (r\<lparr> failed := failed r + 1 \<rparr>,
                               whatsAppMessage_update (m_id msg)
                                 (\<lambda>m. m\<lparr> m_status := FAILED, m_error := Some err,
                                          m_updated_at := Some now \<rparr>) s)))))"

text \<open>
  The loop over a batch that was read before, on the store as it is when the loop runs;
  and the handler run in which nothing else writes between its \<open>findMany\<close> and its
  updates.
\<close>

definition processBatch ::
  "js_runtime \<Rightarrow> nat \<Rightarrow> (string \<Rightarrow> string \<Rightarrow> send_result) \<Rightarrow> int \<Rightarrow> pendingMessage list
   \<Rightarrow> store \<Rightarrow> results \<times> store" where
  "processBatch rt hour sendWhatsAppMessage now pendingMessages s =
     fold (processMessage rt hour sendWhatsAppMessage now) pendingMessages
       (\<lparr> processed = 0, sent = 0, failed = 0, cancelled = 0 \<rparr>, s)"

definition processWhatsAppQueue ::
  "js_runtime \<Rightarrow> nat \<Rightarrow> (string \<Rightarrow> string \<Rightarrow> send_result) \<Rightarrow> int \<Rightarrow> store \<Rightarrow> results \<times> store" where
  "processWhatsAppQueue rt hour sendWhatsAppMessage now s =
     processBatch rt hour sendWhatsAppMessage now (findPendingMessages now s) s"

section \<open>Expiry sweeper (the check-expired-pix cron handler)\<close>

record sweep_results =
  checked :: nat
  expired :: nat
  queued :: nat
  errors :: nat

text \<open>
  The \<open>findMany\<close> of the sweeper: its \<open>where\<close> clause, and the first 50 matching
  transactions in table order, each with its lead (\<open>include: lead\<close>).
\<close>

definition pendingPixWhere :: "int \<Rightarrow> transaction \<Rightarrow> bool" where
  "pendingPixWhere now t =
     (t_payment_method t = pix
      \<and> (t_status t = processing \<or> t_status t = requires_payment_method)
      \<and> t_created_at t \<le> now - 16 * 60 * 1000)"

definition findPendingPixTransactions :: "int \<Rightarrow> store \<Rightarrow> (transaction \<times> lead option) list" where
  "findPendingPixTransactions now s =
     map (\<lambda>t. (t, List.find (\<lambda>l. l_id l = t_lead_id t) (leads s)))
       (take 50 (filter (pendingPixWhere now) (transactions s)))"

text \<open>
  The body of the loop for one transaction. \<open>queued\<close> is counted whenever the queue
  function returns, also when it returns \<open>null\<close>; a missing lead makes it throw, which
  is counted in \<open>errors\<close>. The queue function reads the clock again; the model gives it
  the reading of the handler.
\<close>

definition sweepTransaction ::
  "int \<Rightarrow> transaction \<times> lead option \<Rightarrow> sweep_results \<times> store \<Rightarrow> sweep_results \<times> store" where
  "sweepTransaction now row acc =
     (let tx = fst row;
          r = (fst acc)\<lparr> checked := checked (fst acc) + 1 \<rparr>;
          s = snd acc;
          minutesSinceCreation = (now - t_created_at tx) div 1000 div 60
      in if minutesSinceCreation \<ge> 16 then
           (let s1 = transaction_update (t_id tx) (\<lambda>t. t\<lparr> t_status := canceled \<rparr>) s;
                r1 = r\<lparr> expired := expired r + 1 \<rparr>
            in case snd row of
                 None \<Rightarrow> (r1\<lparr> errors := errors r1 + 1 \<rparr>, s1)
               | Some ld \<Rightarrow> (r1\<lparr> queued := queued r1 + 1 \<rparr>, snd (queuePaymentAbandonedMessage now ld s1)))
         else (r, s))"

definition checkExpiredPix :: "int \<Rightarrow> store \<Rightarrow> sweep_results \<times> store" where
  "checkExpiredPix now s =
     fold (sweepTransaction now) (findPendingPixTransactions now s)
       (\<lparr> checked = 0, expired = 0, queued = 0, errors = 0 \<rparr>, s)"

section \<open>Payment-success webhook handlers\<close>

definition meeting_create :: "int \<Rightarrow> transaction \<Rightarrow> store \<Rightarrow> store" where
  "meeting_create now tx s =
     s\<lparr> meetings := meetings s @
          [\<lparr> mt_id = next_id s, mt_transaction_id = t_id tx, mt_lead_id = t_lead_id tx,
             mt_affiliate_id = t_affiliate_id tx, mt_meeting_date = t_scheduled_date tx,
             mt_meeting_time = t_scheduled_time tx, mt_status = ''scheduled'',
             mt_created_at = now \<rparr>],
        next_id := Suc (next_id s) \<rparr>"

text \<open>
  The steps the three success handlers share after the transaction update: create the
  meeting unless one exists for the transaction, then move the lead to COMPRADO.
\<close>

definition confirmMeetingAndLead :: "int \<Rightarrow> transaction \<Rightarrow> store \<Rightarrow> store" where
  "confirmMeetingAndLead now tx s =
     (let s1 = (case List.find (\<lambda>m. mt_transaction_id m = t_id tx) (meetings s) of
                  None \<Rightarrow> meeting_create now tx s
                | Some existingMeeting \<Rightarrow> s)
      in lead_update (t_lead_id tx) (\<lambda>l. l\<lparr> l_stage := ''COMPRADO'' \<rparr>) s1)"

text \<open>\<open>handleChargeCompleted\<close> of pages/api/checkout/webhook.js.\<close>

definition handleChargeCompleted :: "int \<Rightarrow> transaction \<Rightarrow> store \<Rightarrow> store" where
  "handleChargeCompleted now tx s =
     confirmMeetingAndLead now tx
       (transaction_update (t_id tx) (\<lambda>t. t\<lparr> t_status := succeeded \<rparr>) s)"

text \<open>
  \<open>handleChargeCompleted\<close> of the OpenPix webhook; it also sets the payment method. Its
  Discord notification goes to an external service and leaves the store as it is.
\<close>

definition handleChargeCompleted_openpix :: "int \<Rightarrow> transaction \<Rightarrow> store \<Rightarrow> store" where
  "handleChargeCompleted_openpix now tx s =
     confirmMeetingAndLead now tx
       (transaction_update (t_id tx) (\<lambda>t. t\<lparr> t_status := succeeded, t_payment_method := pix \<rparr>) s)"

text \<open>
  \<open>handlePaymentIntentSucceeded\<close> of the Stripe webhook: the transaction is looked up by
  its payment intent; \<open>isPix\<close> says whether the intent's first payment method type is pix.
\<close>

definition handlePaymentIntentSucceeded :: "int \<Rightarrow> string \<Rightarrow> bool \<Rightarrow> store \<Rightarrow> store" where
  "handlePaymentIntentSucceeded now paymentIntentId isPix s =
     (case transaction_findFirst (\<lambda>t. t_stripe_payment_intent t = Some paymentIntentId) s of
        None \<Rightarrow> s
      | Some tx \<Rightarrow>
          confirmMeetingAndLead now tx
            (transaction_update (t_id tx)
               (\<lambda>t. t\<lparr> t_status := succeeded, t_payment_method := (if isPix then pix else card) \<rparr>) s))"

section \<open>Predicates of the specification\<close>

text \<open>
  The number of rows of a lead and a message type whose status is PENDING or SENT
  (invariant I1 bounds it by one).
\<close>

definition active_count :: "store \<Rightarrow> nat \<Rightarrow> message_type \<Rightarrow> nat" where
  "active_count s L T =
     length (filter (\<lambda>m. m_lead_id m = L \<and> m_message_type m = T
                          \<and> (m_status m = PENDING \<or> m_status m = SENT)) (messages s))"

text \<open>
  The allowed status changes of one row (invariant I3): none, or PENDING to one of the
  three terminal states. \<open>monotonic s s'\<close> says that every row of \<open>s\<close> is still at its place
  in \<open>s'\<close>, with its id, lead and type, and a status reached by an allowed change; rows may
  have been added behind.
\<close>

definition status_step :: "message_status \<Rightarrow> message_status \<Rightarrow> bool" where
  "status_step a b = (a = b \<or> (a = PENDING \<and> (b = SENT \<or> b = CANCELLED \<or> b = FAILED)))"

definition row_step :: "whatsAppMessage \<Rightarrow> whatsAppMessage \<Rightarrow> bool" where
  "row_step m m' =
     (m_id m' = m_id m \<and> m_lead_id m' = m_lead_id m \<and> m_message_type m' = m_message_type m
      \<and> status_step (m_status m) (m_status m'))"

definition monotonic :: "store \<Rightarrow> store \<Rightarrow> bool" where
  "monotonic s s' =
     (length (messages s) \<le> length (messages s')
      \<and> list_all2 row_step (messages s) (take (length (messages s)) (messages s')))"

text \<open>
  The primary key of the message table: the ids of its rows are distinct and below the
  counter that hands out the next one.
\<close>

definition fresh_ids :: "store \<Rightarrow> bool" where
  "fresh_ids s = (distinct (map m_id (messages s)) \<and> list_all (\<lambda>m. m_id m < next_id s) (messages s))"

section \<open>Sample data for concrete evaluations\<close>

definition sample_lead :: lead where
  "sample_lead = \<lparr> l_id = 1, l_nome = ''Ana Silva'', l_whatsapp = ''5511999990000'', l_stage = ''NOVO'' \<rparr>"

definition tx_of :: "nat \<Rightarrow> transaction_status \<Rightarrow> int \<Rightarrow> transaction" where
  "tx_of i st created =
     \<lparr> t_id = i, t_lead_id = 1, t_affiliate_id = None, t_stripe_payment_intent = None,
       t_payment_method = pix, t_status = st, t_created_at = created,
       t_scheduled_date = JDate (Some 1768003200000), t_scheduled_time = JDate (Some 68400000) \<rparr>"

definition msg_of :: "nat \<Rightarrow> message_type \<Rightarrow> message_status \<Rightarrow> int \<Rightarrow> whatsAppMessage" where
  "msg_of i ty st after =
     \<lparr> m_id = i, m_lead_id = 1, m_phone = ''5511999990000'', m_message_type = ty, m_status = st,
       m_send_after = after, m_message_text = None, m_sent_at = None, m_error = None,
       m_updated_at = None \<rparr>"

definition store_of :: "transaction list \<Rightarrow> whatsAppMessage list \<Rightarrow> store" where
  "store_of txs msgs =
     \<lparr> leads = [sample_lead], transactions = txs, meetings = [], messages = msgs, next_id = 100 \<rparr>"

definition sample_runtime :: js_runtime where
  "sample_runtime =
     \<lparr> parseDate = (\<lambda>str. None),
       formatDate_ptBR = (\<lambda>t. ''sabado, 10 de janeiro''),
       formatTime_ptBR = (\<lambda>t. ''19:00'') \<rparr>"

definition deliver_ok :: "string \<Rightarrow> string \<Rightarrow> send_result" where
  "deliver_ok phone text = Success"

definition deliver_fail :: "string \<Rightarrow> string \<Rightarrow> send_result" where
  "deliver_fail phone text = Failure ''HTTP 500''"

text \<open>Fifty-one PIX transactions of the sample lead, all created at time 0 and unpaid.\<close>

definition store51 :: store where
  "store51 = store_of (map (\<lambda>i. tx_of i processing 0) [0..<51]) []"

definition meeting_of :: "jsval \<Rightarrow> jsval \<Rightarrow> meeting" where
  "meeting_of d t =
     \<lparr> mt_id = 50, mt_transaction_id = 7, mt_lead_id = 1, mt_affiliate_id = None,
       mt_meeting_date = d, mt_meeting_time = t, mt_status = ''scheduled'', mt_created_at = 4000 \<rparr>"

definition no_results :: results where
  "no_results = \<lparr> processed = 0, sent = 0, failed = 0, cancelled = 0 \<rparr>"


section \<open>Facts about the store operations\<close>

lemma findFirst_message_None:
  "(whatsAppMessage_findFirst P s = None) = (\<forall>m\<in>set (messages s). \<not> P m)"
  by (auto simp: whatsAppMessage_findFirst_def find_None_iff)

lemma findFirst_transaction_None:
  "(transaction_findFirst P s = None) = (\<forall>t\<in>set (transactions s). \<not> P t)"
  by (auto simp: transaction_findFirst_def find_None_iff)

text \<open>The queue functions and the processor pass, written out.\<close>

lemma queueLeadWelcomeMessage_unfold:
  "queueLeadWelcomeMessage now ld s =
     (case whatsAppMessage_findFirst
             (\<lambda>m. m_lead_id m = l_id ld \<and> m_message_type m = LEAD_WELCOME
                   \<and> (m_status m = PENDING \<or> m_status m = SENT)) s of
        Some existing \<Rightarrow> (None, s)
      | None \<Rightarrow>
          (let sendAfter = now + WELCOME_MESSAGE_DELAY_MS;
               (message, s') = whatsAppMessage_create (l_id ld) (l_whatsapp ld) LEAD_WELCOME sendAfter s
           in (Some message, s')))"
  by (simp add: queueLeadWelcomeMessage_def queueLeadWelcomeMessage_after_def findExistingWelcome_def)

lemma queuePaymentAbandonedMessage_unfold:
  "queuePaymentAbandonedMessage now ld s =
     (case transaction_findFirst (\<lambda>t. t_lead_id t = l_id ld \<and> t_status t = succeeded) s of
        Some successfulPayment \<Rightarrow> (None, s)
      | None \<Rightarrow>
          (case whatsAppMessage_findFirst
                  (\<lambda>m. m_lead_id m = l_id ld \<and> m_message_type m = PAYMENT_ABANDONED
                        \<and> (m_status m = PENDING \<or> m_status m = SENT)) s of
             Some existing \<Rightarrow> (None, s)
           | None \<Rightarrow>
               (let (n1, s1) = cancelPendingWelcomeMessage (l_id ld) s;
                    (message, s2) = whatsAppMessage_create (l_id ld) (l_whatsapp ld) PAYMENT_ABANDONED now s1
                in (Some message, s2))))"
  by (simp add: queuePaymentAbandonedMessage_def queuePaymentAbandonedMessage_after_def
      findSuccessfulPayment_def findExistingAbandoned_def)

lemma queuePaymentConfirmedMessage_unfold:
  "queuePaymentConfirmedMessage now ld s =
     (case whatsAppMessage_findFirst
             (\<lambda>m. m_lead_id m = l_id ld \<and> m_message_type m = PAYMENT_CONFIRMED
                   \<and> (m_status m = PENDING \<or> m_status m = SENT)) s of
        Some existing \<Rightarrow> (None, s)
      | None \<Rightarrow>
          (let (n1, s1) = cancelPendingWelcomeMessage (l_id ld) s;
               (n2, s2) = cancelPendingAbandonedMessage (l_id ld) s1;
               (message, s3) = whatsAppMessage_create (l_id ld) (l_whatsapp ld) PAYMENT_CONFIRMED now s2
           in (Some message, s3)))"
  by (simp add: queuePaymentConfirmedMessage_def queuePaymentConfirmedMessage_after_def
      findExistingConfirmed_def)

lemma processWhatsAppQueue_unfold:
  "processWhatsAppQueue rt hour send now s =
     fold (processMessage rt hour send now) (findPendingMessages now s)
       (\<lparr> processed = 0, sent = 0, failed = 0, cancelled = 0 \<rparr>, s)"
  by (simp add: processWhatsAppQueue_def processBatch_def)

section \<open>The queue writer\<close>

text \<open>
  C5. If some transaction of the lead has status succeeded, \<open>queuePaymentAbandonedMessage\<close>
  returns \<open>null\<close> and the store is exactly the store it was given: no row is created and no
  message, a PENDING welcome included, is cancelled or changed.
\<close>

theorem abandoned_suppressed_by_success:
  assumes "t \<in> set (transactions s)" and "t_lead_id t = l_id ld" and "t_status t = succeeded"
  shows "queuePaymentAbandonedMessage now ld s = (None, s)"
proof -
  have "transaction_findFirst (\<lambda>t. t_lead_id t = l_id ld \<and> t_status t = succeeded) s \<noteq> None"
    using assms by (auto simp: findFirst_transaction_None)
  then show ?thesis
    by (auto simp: queuePaymentAbandonedMessage_unfold)
qed

theorem abandoned_suppressed_by_success_witness:
  "tx_of 7 succeeded 1000 \<in> set (transactions (store_of [tx_of 7 succeeded 1000] [msg_of 3 LEAD_WELCOME PENDING 2000]))
   \<and> t_lead_id (tx_of 7 succeeded 1000) = l_id sample_lead
   \<and> t_status (tx_of 7 succeeded 1000) = succeeded
   \<and> queuePaymentAbandonedMessage 5000 sample_lead
        (store_of [tx_of 7 succeeded 1000] [msg_of 3 LEAD_WELCOME PENDING 2000])
      = (None, store_of [tx_of 7 succeeded 1000] [msg_of 3 LEAD_WELCOME PENDING 2000])"
proof -
  have h1: "tx_of 7 succeeded 1000 \<in> set (transactions (store_of [tx_of 7 succeeded 1000] [msg_of 3 LEAD_WELCOME PENDING 2000]))"
    by (simp add: store_of_def)
  have h2: "t_lead_id (tx_of 7 succeeded 1000) = l_id sample_lead"
    by (simp add: tx_of_def sample_lead_def)
  have h3: "t_status (tx_of 7 succeeded 1000) = succeeded"
    by (simp add: tx_of_def)
  show ?thesis
    using h1 h2 h3 abandoned_suppressed_by_success [OF h1 h2 h3, of 5000] by simp
qed

text \<open>
  C6. Cascade cancellation. When \<open>queuePaymentAbandonedMessage\<close> creates a row, the
  message table afterwards is the old table with every PENDING welcome row of the lead
  turned CANCELLED, followed by the new PENDING abandoned row; no welcome row of the lead is
  left PENDING. When \<open>queuePaymentConfirmedMessage\<close> creates a row, the same holds with
  every PENDING welcome and every PENDING abandoned row of the lead turned CANCELLED,
  followed by the new PENDING confirmed row.
\<close>

theorem cascade_cancellation:
  "(queuePaymentAbandonedMessage now ld sa = (Some msgA, sa') \<longrightarrow>
      messages sa' =
        map (\<lambda>m. if m_lead_id m = l_id ld \<and> m_message_type m = LEAD_WELCOME \<and> m_status m = PENDING
                  then m\<lparr> m_status := CANCELLED \<rparr> else m) (messages sa) @ [msgA]
      \<and> m_lead_id msgA = l_id ld \<and> m_message_type msgA = PAYMENT_ABANDONED \<and> m_status msgA = PENDING
      \<and> (\<forall>m\<in>set (messages sa'). m_lead_id m = l_id ld \<and> m_message_type m = LEAD_WELCOME
             \<longrightarrow> m_status m \<noteq> PENDING))
   \<and> (queuePaymentConfirmedMessage now ld sc = (Some msgC, sc') \<longrightarrow>
      messages sc' =
        map (\<lambda>m. if m_lead_id m = l_id ld
                     \<and> (m_message_type m = LEAD_WELCOME \<or> m_message_type m = PAYMENT_ABANDONED)
                     \<and> m_status m = PENDING
                  then m\<lparr> m_status := CANCELLED \<rparr> else m) (messages sc) @ [msgC]
      \<and> m_lead_id msgC = l_id ld \<and> m_message_type msgC = PAYMENT_CONFIRMED \<and> m_status msgC = PENDING
      \<and> (\<forall>m\<in>set (messages sc').
             m_lead_id m = l_id ld
             \<and> (m_message_type m = LEAD_WELCOME \<or> m_message_type m = PAYMENT_ABANDONED)
             \<longrightarrow> m_status m \<noteq> PENDING))"
proof (intro conjI impI)
  assume a: "queuePaymentAbandonedMessage now ld sa = (Some msgA, sa')"
  then show m: "messages sa' =
        map (\<lambda>m. if m_lead_id m = l_id ld \<and> m_message_type m = LEAD_WELCOME \<and> m_status m = PENDING
                  then m\<lparr> m_status := CANCELLED \<rparr> else m) (messages sa) @ [msgA]"
    by (auto simp: queuePaymentAbandonedMessage_unfold cancelPendingWelcomeMessage_def
        whatsAppMessage_updateMany_def whatsAppMessage_create_def Let_def
        split: option.splits)
  from a show "m_lead_id msgA = l_id ld" "m_message_type msgA = PAYMENT_ABANDONED"
    "m_status msgA = PENDING"
    by (auto simp: queuePaymentAbandonedMessage_unfold cancelPendingWelcomeMessage_def
        whatsAppMessage_updateMany_def whatsAppMessage_create_def Let_def
        split: option.splits)
  then show "\<forall>m\<in>set (messages sa'). m_lead_id m = l_id ld \<and> m_message_type m = LEAD_WELCOME
             \<longrightarrow> m_status m \<noteq> PENDING"
    unfolding m by auto
next
  assume c: "queuePaymentConfirmedMessage now ld sc = (Some msgC, sc')"
  then show m: "messages sc' =
        map (\<lambda>m. if m_lead_id m = l_id ld
                     \<and> (m_message_type m = LEAD_WELCOME \<or> m_message_type m = PAYMENT_ABANDONED)
                     \<and> m_status m = PENDING
                  then m\<lparr> m_status := CANCELLED \<rparr> else m) (messages sc) @ [msgC]"
    by (auto simp: queuePaymentConfirmedMessage_unfold cancelPendingWelcomeMessage_def
        cancelPendingAbandonedMessage_def
        whatsAppMessage_updateMany_def whatsAppMessage_create_def Let_def
        split: option.splits)
  from c show "m_lead_id msgC = l_id ld" "m_message_type msgC = PAYMENT_CONFIRMED"
    "m_status msgC = PENDING"
    by (auto simp: queuePaymentConfirmedMessage_unfold cancelPendingWelcomeMessage_def
        cancelPendingAbandonedMessage_def
        whatsAppMessage_updateMany_def whatsAppMessage_create_def Let_def
        split: option.splits)
  then show "\<forall>m\<in>set (messages sc').
             m_lead_id m = l_id ld
             \<and> (m_message_type m = LEAD_WELCOME \<or> m_message_type m = PAYMENT_ABANDONED)
             \<longrightarrow> m_status m \<noteq> PENDING"
    unfolding m by auto
qed

theorem cascade_cancellation_witness:
  "queuePaymentAbandonedMessage 5000 sample_lead
       (store_of [tx_of 7 processing 1000] [msg_of 3 LEAD_WELCOME PENDING 2000])
     = (Some (msg_of 100 PAYMENT_ABANDONED PENDING 5000),
        (store_of [tx_of 7 processing 1000]
           [msg_of 3 LEAD_WELCOME CANCELLED 2000, msg_of 100 PAYMENT_ABANDONED PENDING 5000])
          \<lparr> next_id := 101 \<rparr>)
   \<and> queuePaymentConfirmedMessage 6000 sample_lead
       (store_of [tx_of 7 succeeded 1000]
          [msg_of 3 LEAD_WELCOME PENDING 2000, msg_of 4 PAYMENT_ABANDONED PENDING 3000])
     = (Some (msg_of 100 PAYMENT_CONFIRMED PENDING 6000),
        (store_of [tx_of 7 succeeded 1000]
           [msg_of 3 LEAD_WELCOME CANCELLED 2000, msg_of 4 PAYMENT_ABANDONED CANCELLED 3000,
            msg_of 100 PAYMENT_CONFIRMED PENDING 6000])
          \<lparr> next_id := 101 \<rparr>)
   \<and> m_status (msg_of 3 LEAD_WELCOME CANCELLED 2000) \<noteq> PENDING"
proof -
  have ha: "queuePaymentAbandonedMessage 5000 sample_lead
       (store_of [tx_of 7 processing 1000] [msg_of 3 LEAD_WELCOME PENDING 2000])
     = (Some (msg_of 100 PAYMENT_ABANDONED PENDING 5000),
        (store_of [tx_of 7 processing 1000]
           [msg_of 3 LEAD_WELCOME CANCELLED 2000, msg_of 100 PAYMENT_ABANDONED PENDING 5000])
          \<lparr> next_id := 101 \<rparr>)"
    by (simp add: queuePaymentAbandonedMessage_unfold cancelPendingWelcomeMessage_def
        whatsAppMessage_updateMany_def whatsAppMessage_create_def transaction_findFirst_def
        whatsAppMessage_findFirst_def store_of_def msg_of_def tx_of_def sample_lead_def Let_def)
  have hc: "queuePaymentConfirmedMessage 6000 sample_lead
       (store_of [tx_of 7 succeeded 1000]
          [msg_of 3 LEAD_WELCOME PENDING 2000, msg_of 4 PAYMENT_ABANDONED PENDING 3000])
     = (Some (msg_of 100 PAYMENT_CONFIRMED PENDING 6000),
        (store_of [tx_of 7 succeeded 1000]
           [msg_of 3 LEAD_WELCOME CANCELLED 2000, msg_of 4 PAYMENT_ABANDONED CANCELLED 3000,
            msg_of 100 PAYMENT_CONFIRMED PENDING 6000])
          \<lparr> next_id := 101 \<rparr>)"
    by (simp add: queuePaymentConfirmedMessage_unfold cancelPendingWelcomeMessage_def
        cancelPendingAbandonedMessage_def
        whatsAppMessage_updateMany_def whatsAppMessage_create_def transaction_findFirst_def
        whatsAppMessage_findFirst_def store_of_def msg_of_def tx_of_def sample_lead_def Let_def)
  from cascade_cancellation [THEN conjunct1, rule_format, OF ha]
       cascade_cancellation [THEN conjunct2, rule_format, OF hc]
  have "\<forall>m\<in>set (messages ((store_of [tx_of 7 processing 1000]
           [msg_of 3 LEAD_WELCOME CANCELLED 2000, msg_of 100 PAYMENT_ABANDONED PENDING 5000])
          \<lparr> next_id := 101 \<rparr>)).
         m_lead_id m = l_id sample_lead \<and> m_message_type m = LEAD_WELCOME \<longrightarrow> m_status m \<noteq> PENDING"
    by blast
  then have "m_status (msg_of 3 LEAD_WELCOME CANCELLED 2000) \<noteq> PENDING"
    by (simp add: store_of_def msg_of_def sample_lead_def)
  then show ?thesis using ha hc by simp
qed

section \<open>Status changes are monotonic\<close>

lemma status_step_refl: "status_step a a"
  by (simp add: status_step_def)

lemma status_step_trans: "status_step a b \<Longrightarrow> status_step b c \<Longrightarrow> status_step a c"
  by (auto simp: status_step_def)

lemma row_step_refl: "row_step m m"
  by (simp add: row_step_def status_step_refl)

lemma row_step_trans: "row_step a b \<Longrightarrow> row_step b c \<Longrightarrow> row_step a c"
  by (auto simp: row_step_def intro: status_step_trans)

lemma monotonic_refl: "monotonic s s"
  by (simp add: monotonic_def list_all2_refl row_step_refl)

lemma monotonic_same_messages: "messages s' = messages s \<Longrightarrow> monotonic s s'"
  by (simp add: monotonic_def list_all2_refl row_step_refl)

lemma monotonic_trans:
  assumes "monotonic a b" and "monotonic b c"
  shows "monotonic a c"
proof -
  let ?n = "length (messages a)"
  from assms have l: "?n \<le> length (messages b)" "length (messages b) \<le> length (messages c)"
    by (auto simp: monotonic_def)
  from assms have ab: "list_all2 row_step (messages a) (take ?n (messages b))"
    by (simp add: monotonic_def)
  from assms have "list_all2 row_step (messages b) (take (length (messages b)) (messages c))"
    by (simp add: monotonic_def)
  then have "list_all2 row_step (take ?n (messages b)) (take ?n (take (length (messages b)) (messages c)))"
    by (rule list_all2_takeI)
  then have bc: "list_all2 row_step (take ?n (messages b)) (take ?n (messages c))"
    using l by (simp add: min_def)
  from ab bc have "list_all2 row_step (messages a) (take ?n (messages c))"
    by (rule list_all2_trans [rotated]) (rule row_step_trans)
  then show ?thesis using l by (simp add: monotonic_def)
qed

lemma monotonic_map:
  assumes "\<And>m. m \<in> set (messages s) \<Longrightarrow> row_step m (g m)"
  shows "monotonic s (s\<lparr> messages := map g (messages s) \<rparr>)"
  using assms by (simp add: monotonic_def list_all2_conv_all_nth)

lemma monotonic_updateMany:
  assumes "\<And>m. P m \<Longrightarrow> m_status m = PENDING"
  shows "monotonic s (snd (whatsAppMessage_updateMany P (\<lambda>m. m\<lparr> m_status := CANCELLED \<rparr>) s))"
  unfolding whatsAppMessage_updateMany_def snd_conv
  by (rule monotonic_map) (auto simp: row_step_def status_step_def dest: assms)

lemma monotonic_create:
  "monotonic s (snd (whatsAppMessage_create L phone T after s))"
  by (simp add: whatsAppMessage_create_def Let_def monotonic_def list_all2_refl row_step_refl)

lemma monotonic_update:
  assumes "\<And>m. m \<in> set (messages s) \<Longrightarrow> m_id m = i \<Longrightarrow> m_status m = PENDING"
    and "\<And>m. m_id (f m) = m_id m \<and> m_lead_id (f m) = m_lead_id m
             \<and> m_message_type (f m) = m_message_type m \<and> m_status (f m) \<noteq> PENDING"
  shows "monotonic s (whatsAppMessage_update i f s)"
  unfolding whatsAppMessage_update_def
proof (rule monotonic_map)
  fix m assume "m \<in> set (messages s)"
  then show "row_step m (if m_id m = i then f m else m)"
    using assms(1) [of m] assms(2) [of m]
    by (cases "m_status (f m)") (auto simp: row_step_def status_step_def)
qed

lemma monotonic_cancelWelcome: "monotonic s (snd (cancelPendingWelcomeMessage L s))"
  unfolding cancelPendingWelcomeMessage_def by (rule monotonic_updateMany) simp

lemma monotonic_cancelAbandoned: "monotonic s (snd (cancelPendingAbandonedMessage L s))"
  unfolding cancelPendingAbandonedMessage_def by (rule monotonic_updateMany) simp

lemma monotonic_queueWelcome: "monotonic s (snd (queueLeadWelcomeMessage now ld s))"
  by (auto simp: queueLeadWelcomeMessage_unfold Let_def split_def monotonic_refl monotonic_create
      split: option.splits)

lemma monotonic_queueAbandoned: "monotonic s (snd (queuePaymentAbandonedMessage now ld s))"
  by (auto simp: queuePaymentAbandonedMessage_unfold Let_def split_def monotonic_refl
      split: option.splits
      intro: monotonic_trans [OF monotonic_cancelWelcome monotonic_create])

lemma monotonic_queueConfirmed: "monotonic s (snd (queuePaymentConfirmedMessage now ld s))"
  by (auto simp: queuePaymentConfirmedMessage_unfold Let_def split_def monotonic_refl
      split: option.splits
      intro: monotonic_trans [OF monotonic_cancelWelcome
                monotonic_trans [OF monotonic_cancelAbandoned monotonic_create]])

lemma monotonic_queueWelcome_after:
  "monotonic s (snd (queueLeadWelcomeMessage_after existing now ld s))"
  by (auto simp: queueLeadWelcomeMessage_after_def Let_def split_def monotonic_refl monotonic_create
      split: option.splits)

lemma monotonic_queueAbandoned_after:
  "monotonic s (snd (queuePaymentAbandonedMessage_after successfulPayment existing now ld s))"
  by (auto simp: queuePaymentAbandonedMessage_after_def Let_def split_def monotonic_refl
      split: option.splits
      intro: monotonic_trans [OF monotonic_cancelWelcome monotonic_create])

lemma monotonic_queueConfirmed_after:
  "monotonic s (snd (queuePaymentConfirmedMessage_after existing now ld s))"
  by (auto simp: queuePaymentConfirmedMessage_after_def Let_def split_def monotonic_refl
      split: option.splits
      intro: monotonic_trans [OF monotonic_cancelWelcome
                monotonic_trans [OF monotonic_cancelAbandoned monotonic_create]])

subsection \<open>The processor pass\<close>

lemma processMessage_is_update:
  "\<exists>f. snd (processMessage rt hour send now pm acc) = whatsAppMessage_update (m_id (pm_msg pm)) f (snd acc)
       \<and> (\<forall>m. m_id (f m) = m_id m \<and> m_lead_id (f m) = m_lead_id m
             \<and> m_message_type (f m) = m_message_type m \<and> m_status (f m) \<noteq> PENDING)"
  unfolding processMessage_def Let_def
  by (auto split: option.splits send_result.splits intro!: exI)

lemma processMessage_step:
  assumes "\<And>m. m \<in> set (messages (snd acc)) \<Longrightarrow> m_id m = m_id (pm_msg pm) \<Longrightarrow> m_status m = PENDING"
  shows "monotonic (snd acc) (snd (processMessage rt hour send now pm acc))"
proof -
  obtain f where f: "snd (processMessage rt hour send now pm acc)
                      = whatsAppMessage_update (m_id (pm_msg pm)) f (snd acc)"
    and g: "\<And>m. m_id (f m) = m_id m \<and> m_lead_id (f m) = m_lead_id m
             \<and> m_message_type (f m) = m_message_type m \<and> m_status (f m) \<noteq> PENDING"
    using processMessage_is_update [of rt hour send now pm acc] by blast
  show ?thesis unfolding f using assms g by (rule monotonic_update)
qed

lemma processMessage_other_rows:
  assumes "m \<in> set (messages (snd (processMessage rt hour send now pm acc)))"
    and "m_id m \<noteq> m_id (pm_msg pm)"
  shows "m \<in> set (messages (snd acc))"
proof -
  obtain f where f: "snd (processMessage rt hour send now pm acc)
                      = whatsAppMessage_update (m_id (pm_msg pm)) f (snd acc)"
    and g: "\<And>m. m_id (f m) = m_id m \<and> m_lead_id (f m) = m_lead_id m
             \<and> m_message_type (f m) = m_message_type m \<and> m_status (f m) \<noteq> PENDING"
    using processMessage_is_update [of rt hour send now pm acc] by blast
  from assms(1) obtain m0 where m0: "m0 \<in> set (messages (snd acc))"
    and e: "m = (if m_id m0 = m_id (pm_msg pm) then f m0 else m0)"
    unfolding f whatsAppMessage_update_def by auto
  show ?thesis
  proof (cases "m_id m0 = m_id (pm_msg pm)")
    case True
    with e g [of m0] assms(2) show ?thesis by simp
  next
    case False
    with e m0 show ?thesis by simp
  qed
qed

lemma process_fold_monotonic:
  assumes "distinct (map (\<lambda>pm. m_id (pm_msg pm)) pms)"
    and "\<And>m pm. m \<in> set (messages (snd acc)) \<Longrightarrow> pm \<in> set pms
           \<Longrightarrow> m_id m = m_id (pm_msg pm) \<Longrightarrow> m_status m = PENDING"
  shows "monotonic (snd acc) (snd (fold (processMessage rt hour send now) pms acc))"
  using assms
proof (induction pms arbitrary: acc)
  case Nil
  show ?case by (simp add: monotonic_refl)
next
  case (Cons pm pms)
  let ?acc = "processMessage rt hour send now pm acc"
  have one: "monotonic (snd acc) (snd ?acc)"
    by (rule processMessage_step) (rule Cons.prems(2), simp_all)
  have d: "distinct (map (\<lambda>pm. m_id (pm_msg pm)) pms)"
    using Cons.prems(1) by simp
  have rest: "monotonic (snd ?acc) (snd (fold (processMessage rt hour send now) pms ?acc))"
  proof (rule Cons.IH [OF d])
    fix m pm'
    assume m: "m \<in> set (messages (snd ?acc))" and p: "pm' \<in> set pms"
      and e: "m_id m = m_id (pm_msg pm')"
    from Cons.prems(1) have "m_id (pm_msg pm) \<notin> (\<lambda>pm. m_id (pm_msg pm)) ` set pms" by simp
    moreover from p have "m_id (pm_msg pm') \<in> (\<lambda>pm. m_id (pm_msg pm)) ` set pms" by (rule imageI)
    ultimately have "m_id (pm_msg pm') \<noteq> m_id (pm_msg pm)" by metis
    with e have "m_id m \<noteq> m_id (pm_msg pm)" by simp
    with m have "m \<in> set (messages (snd acc))" by (rule processMessage_other_rows)
    then show "m_status m = PENDING" using p e Cons.prems(2) [of m pm'] by simp
  qed
  from one rest show ?case by (simp add: monotonic_trans)
qed

lemma pending_batch:
  "set (map pm_msg (findPendingMessages now s))
     \<subseteq> {m \<in> set (messages s). m_status m = PENDING \<and> m_send_after m \<le> now}"
proof -
  have "set (take 20 (sort_key m_send_after
          (filter (\<lambda>m. m_status m = PENDING \<and> m_send_after m \<le> now) (messages s))))
        \<subseteq> set (sort_key m_send_after
          (filter (\<lambda>m. m_status m = PENDING \<and> m_send_after m \<le> now) (messages s)))"
    by (rule set_take_subset)
  then show ?thesis
    by (auto simp: findPendingMessages_def comp_def)
qed

lemma pending_batch_distinct:
  assumes "distinct (map m_id (messages s))"
  shows "distinct (map (\<lambda>pm. m_id (pm_msg pm)) (findPendingMessages now s))"
proof -
  let ?xs = "filter (\<lambda>m. m_status m = PENDING \<and> m_send_after m \<le> now) (messages s)"
  from assms have "distinct (map m_id ?xs)" by (rule distinct_map_filter)
  then have "distinct ?xs" "inj_on m_id (set ?xs)" by (auto simp: distinct_map)
  then have "distinct (sort_key m_send_after ?xs)" "inj_on m_id (set (sort_key m_send_after ?xs))"
    by simp_all
  then have "distinct (take 20 (sort_key m_send_after ?xs))"
    "inj_on m_id (set (take 20 (sort_key m_send_after ?xs)))"
    by (auto intro: inj_on_subset [OF _ set_take_subset])
  then have "distinct (map m_id (take 20 (sort_key m_send_after ?xs)))"
    by (simp add: distinct_map)
  then show ?thesis by (simp add: findPendingMessages_def comp_def)
qed

lemma processWhatsAppQueue_monotonic:
  assumes "distinct (map m_id (messages s))"
  shows "monotonic s (snd (processWhatsAppQueue rt hour send now s))"
proof -
  have "monotonic (snd (r0, s)) (snd (fold (processMessage rt hour send now) (findPendingMessages now s) (r0, s)))" for r0
  proof (rule process_fold_monotonic [OF pending_batch_distinct [OF assms]])
    fix m pm
    assume m: "m \<in> set (messages (snd (r0, s)))" and p: "pm \<in> set (findPendingMessages now s)"
      and e: "m_id m = m_id (pm_msg pm)"
    from p have "pm_msg pm \<in> set (map pm_msg (findPendingMessages now s))" by simp
    with pending_batch have q: "pm_msg pm \<in> set (messages s)" "m_status (pm_msg pm) = PENDING"
      by auto
    from assms m q(1) e have "m = pm_msg pm"
      by (auto simp: distinct_map dest: inj_onD)
    with q show "m_status m = PENDING" by simp
  qed
  then show ?thesis by (simp add: processWhatsAppQueue_unfold)
qed

subsection \<open>The sweeper pass\<close>

lemma monotonic_sweepTransaction: "monotonic (snd acc) (snd (sweepTransaction now row acc))"
proof -
  have a: "monotonic s (transaction_update i f s)" for s i f
    by (rule monotonic_same_messages) (simp add: transaction_update_def)
  show ?thesis
    by (auto simp: sweepTransaction_def Let_def monotonic_refl a split: option.splits
        intro: monotonic_trans [OF a monotonic_queueAbandoned])
qed

lemma monotonic_sweep_fold:
  "monotonic (snd acc) (snd (fold (sweepTransaction now) rows acc))"
proof (induction rows arbitrary: acc)
  case Nil
  show ?case by (simp add: monotonic_refl)
next
  case (Cons row rows)
  have "monotonic (snd acc) (snd (sweepTransaction now row acc))"
    by (rule monotonic_sweepTransaction)
  moreover have "monotonic (snd (sweepTransaction now row acc))
                   (snd (fold (sweepTransaction now) rows (sweepTransaction now row acc)))"
    by (rule Cons.IH)
  ultimately show ?case by (simp add: monotonic_trans)
qed

lemma monotonic_checkExpiredPix: "monotonic s (snd (checkExpiredPix now s))"
  using monotonic_sweep_fold [of "(r0, s)" for r0] by (simp add: checkExpiredPix_def)

lemma processBatch_monotonic:
  assumes "distinct (map (\<lambda>pm. m_id (pm_msg pm)) batch)"
    and "\<forall>m\<in>set (messages s). m_id m \<in> (\<lambda>pm. m_id (pm_msg pm)) ` set batch \<longrightarrow> m_status m = PENDING"
  shows "monotonic s (snd (processBatch rt hour send now batch s))"
proof -
  have "monotonic (snd (r0, s)) (snd (fold (processMessage rt hour send now) batch (r0, s)))" for r0
  proof (rule process_fold_monotonic [OF assms(1)])
    fix m pm
    assume "m \<in> set (messages (snd (r0, s)))" and "pm \<in> set batch" and "m_id m = m_id (pm_msg pm)"
    with assms(2) show "m_status m = PENDING" by auto
  qed
  then show ?thesis by (simp add: processBatch_def)
qed

text \<open>
  C4, as stated for any operation, fails for the processor when something else writes
  between its batch read and its updates. A welcome message is read as PENDING; the lead
  then starts a payment and \<open>queuePaymentAbandonedMessage\<close> cancels the welcome row; the
  loop, still holding the old batch, sends the message and turns the CANCELLED row into
  SENT. Likewise a second run that read the same batch turns the row the first run SENT
  into FAILED when its delivery fails.
\<close>

theorem stale_batch_counterexample:
  "map pm_msg (findPendingMessages 5000 (store_of [] [msg_of 3 LEAD_WELCOME PENDING 2000]))
     = [msg_of 3 LEAD_WELCOME PENDING 2000]
   \<and> map m_status (messages (snd (queuePaymentAbandonedMessage 5000 sample_lead
         (store_of [tx_of 7 processing 4000] [msg_of 3 LEAD_WELCOME PENDING 2000]))))
     = [CANCELLED, PENDING]
   \<and> map m_status (messages (snd (processBatch sample_runtime 9 deliver_ok 5000
         (findPendingMessages 5000 (store_of [] [msg_of 3 LEAD_WELCOME PENDING 2000]))
         (snd (queuePaymentAbandonedMessage 5000 sample_lead
            (store_of [tx_of 7 processing 4000] [msg_of 3 LEAD_WELCOME PENDING 2000]))))))
     = [SENT, PENDING]
   \<and> \<not> monotonic
         (snd (queuePaymentAbandonedMessage 5000 sample_lead
            (store_of [tx_of 7 processing 4000] [msg_of 3 LEAD_WELCOME PENDING 2000])))
         (snd (processBatch sample_runtime 9 deliver_ok 5000
            (findPendingMessages 5000 (store_of [] [msg_of 3 LEAD_WELCOME PENDING 2000]))
            (snd (queuePaymentAbandonedMessage 5000 sample_lead
               (store_of [tx_of 7 processing 4000] [msg_of 3 LEAD_WELCOME PENDING 2000])))))
   \<and> map m_status (messages (snd (processBatch sample_runtime 9 deliver_ok 5000
         (findPendingMessages 5000 (store_of [] [msg_of 3 LEAD_WELCOME PENDING 2000]))
         (store_of [] [msg_of 3 LEAD_WELCOME PENDING 2000]))))
     = [SENT]
   \<and> map m_status (messages (snd (processBatch sample_runtime 9 deliver_fail 5000
         (findPendingMessages 5000 (store_of [] [msg_of 3 LEAD_WELCOME PENDING 2000]))
         (snd (processBatch sample_runtime 9 deliver_ok 5000
            (findPendingMessages 5000 (store_of [] [msg_of 3 LEAD_WELCOME PENDING 2000]))
            (store_of [] [msg_of 3 LEAD_WELCOME PENDING 2000]))))))
     = [FAILED]"
  by (simp add: processBatch_def findPendingMessages_def include_lead_def
      processMessage_def shouldCancelMessage_def generateMessageText_def
      whatsAppMessage_update_def whatsAppMessage_findFirst_def transaction_findFirst_def
      queuePaymentAbandonedMessage_unfold cancelPendingWelcomeMessage_def
      whatsAppMessage_updateMany_def whatsAppMessage_create_def
      monotonic_def row_step_def status_step_def
      store_of_def msg_of_def tx_of_def sample_lead_def deliver_ok_def deliver_fail_def Let_def
      leadWelcome_def)

text \<open>
  C4, amended. Status changes are monotonic for every write of the queue writer and the
  sweeper, on whatever store it runs (so also after a stale read: the functions \<open>_after\<close>
  take any answer of their reads), and for the processor's loop over a batch whose rows
  are still PENDING when the loop runs, as they are in a pass that nothing interrupts (ids
  distinct: they are the primary key, and every operation keeps them so, see \<open>fresh_ids\<close>
  below). Under these conditions each row of the message table stays at its place with its
  id, lead and type, and its status is either the one it had or, for a row that was
  PENDING, one of SENT, CANCELLED and FAILED: no row that is SENT, CANCELLED or FAILED
  changes its status.
\<close>

theorem status_transitions_monotonic:
  "monotonic s (snd (cancelPendingWelcomeMessage L s))
   \<and> monotonic s (snd (cancelPendingAbandonedMessage L s))
   \<and> monotonic s (snd (queueLeadWelcomeMessage now ld s))
   \<and> monotonic s (snd (queuePaymentAbandonedMessage now ld s))
   \<and> monotonic s (snd (queuePaymentConfirmedMessage now ld s))
   \<and> monotonic s (snd (checkExpiredPix now s))
   \<and> (distinct (map m_id (messages s))
        \<longrightarrow> monotonic s (snd (processWhatsAppQueue rt hour send now s)))
   \<and> monotonic s (snd (queueLeadWelcomeMessage_after existing now ld s))
   \<and> monotonic s (snd (queuePaymentAbandonedMessage_after successfulPayment existing now ld s))
   \<and> monotonic s (snd (queuePaymentConfirmedMessage_after existing now ld s))
   \<and> (distinct (map (\<lambda>pm. m_id (pm_msg pm)) batch)
        \<and> (\<forall>m\<in>set (messages s). m_id m \<in> (\<lambda>pm. m_id (pm_msg pm)) ` set batch
               \<longrightarrow> m_status m = PENDING)
        \<longrightarrow> monotonic s (snd (processBatch rt hour send now batch s)))"
  by (simp add: monotonic_cancelWelcome monotonic_cancelAbandoned monotonic_queueWelcome
      monotonic_queueAbandoned monotonic_queueConfirmed monotonic_checkExpiredPix
      processWhatsAppQueue_monotonic monotonic_queueWelcome_after monotonic_queueAbandoned_after
      monotonic_queueConfirmed_after processBatch_monotonic)

theorem status_transitions_monotonic_witness:
  "distinct (map m_id (messages
      (store_of [tx_of 7 processing 1000]
         [msg_of 3 LEAD_WELCOME PENDING 2000, msg_of 4 PAYMENT_ABANDONED PENDING 3000,
          msg_of 5 PAYMENT_CONFIRMED SENT 3500, msg_of 6 PAYMENT_CONFIRMED PENDING 4000,
          msg_of 8 LEAD_WELCOME CANCELLED 100])))
   \<and> monotonic
       (store_of [tx_of 7 processing 1000]
         [msg_of 3 LEAD_WELCOME PENDING 2000, msg_of 4 PAYMENT_ABANDONED PENDING 3000,
          msg_of 5 PAYMENT_CONFIRMED SENT 3500, msg_of 6 PAYMENT_CONFIRMED PENDING 4000,
          msg_of 8 LEAD_WELCOME CANCELLED 100])
       (snd (processWhatsAppQueue sample_runtime 9 deliver_ok 5000
          (store_of [tx_of 7 processing 1000]
             [msg_of 3 LEAD_WELCOME PENDING 2000, msg_of 4 PAYMENT_ABANDONED PENDING 3000,
              msg_of 5 PAYMENT_CONFIRMED SENT 3500, msg_of 6 PAYMENT_CONFIRMED PENDING 4000,
              msg_of 8 LEAD_WELCOME CANCELLED 100])))
   \<and> map m_status (messages (snd (processWhatsAppQueue sample_runtime 9 deliver_ok 5000
          (store_of [tx_of 7 processing 1000]
             [msg_of 3 LEAD_WELCOME PENDING 2000, msg_of 4 PAYMENT_ABANDONED PENDING 3000,
              msg_of 5 PAYMENT_CONFIRMED SENT 3500, msg_of 6 PAYMENT_CONFIRMED PENDING 4000,
              msg_of 8 LEAD_WELCOME CANCELLED 100]))))
     = [CANCELLED, SENT, SENT, CANCELLED, CANCELLED]
   \<and> map (\<lambda>pm. m_id (pm_msg pm)) (findPendingMessages 5000
          (store_of [tx_of 7 processing 1000]
             [msg_of 3 LEAD_WELCOME PENDING 2000, msg_of 4 PAYMENT_ABANDONED PENDING 3000,
              msg_of 5 PAYMENT_CONFIRMED SENT 3500, msg_of 6 PAYMENT_CONFIRMED PENDING 4000,
              msg_of 8 LEAD_WELCOME CANCELLED 100]))
     = [3, 4, 6]
   \<and> monotonic
       (store_of [tx_of 7 processing 1000]
         [msg_of 3 LEAD_WELCOME PENDING 2000, msg_of 4 PAYMENT_ABANDONED PENDING 3000,
          msg_of 5 PAYMENT_CONFIRMED SENT 3500, msg_of 6 PAYMENT_CONFIRMED PENDING 4000,
          msg_of 8 LEAD_WELCOME CANCELLED 100])
       (snd (processBatch sample_runtime 9 deliver_ok 5000
          (findPendingMessages 5000
             (store_of [tx_of 7 processing 1000]
               [msg_of 3 LEAD_WELCOME PENDING 2000, msg_of 4 PAYMENT_ABANDONED PENDING 3000,
                msg_of 5 PAYMENT_CONFIRMED SENT 3500, msg_of 6 PAYMENT_CONFIRMED PENDING 4000,
                msg_of 8 LEAD_WELCOME CANCELLED 100]))
          (store_of [tx_of 7 processing 1000]
             [msg_of 3 LEAD_WELCOME PENDING 2000, msg_of 4 PAYMENT_ABANDONED PENDING 3000,
              msg_of 5 PAYMENT_CONFIRMED SENT 3500, msg_of 6 PAYMENT_CONFIRMED PENDING 4000,
              msg_of 8 LEAD_WELCOME CANCELLED 100])))"
proof -
  let ?s = "store_of [tx_of 7 processing 1000]
             [msg_of 3 LEAD_WELCOME PENDING 2000, msg_of 4 PAYMENT_ABANDONED PENDING 3000,
              msg_of 5 PAYMENT_CONFIRMED SENT 3500, msg_of 6 PAYMENT_CONFIRMED PENDING 4000,
              msg_of 8 LEAD_WELCOME CANCELLED 100]"
  let ?b = "findPendingMessages 5000 ?s"
  note t = status_transitions_monotonic [of ?s _ 5000 _ sample_runtime 9 deliver_ok _ _ ?b]
  have d: "distinct (map m_id (messages ?s))"
    by (simp add: store_of_def msg_of_def)
  have m: "monotonic ?s (snd (processWhatsAppQueue sample_runtime 9 deliver_ok 5000 ?s))"
    using t d by blast
  have e: "map m_status (messages (snd (processWhatsAppQueue sample_runtime 9 deliver_ok 5000 ?s)))
            = [CANCELLED, SENT, SENT, CANCELLED, CANCELLED]"
    by (simp add: processWhatsAppQueue_unfold findPendingMessages_def include_lead_def
      processMessage_def shouldCancelMessage_def generateMessageText_def
      whatsAppMessage_update_def whatsAppMessage_findFirst_def
      store_of_def msg_of_def tx_of_def sample_lead_def deliver_ok_def Let_def
      paymentAbandoned_def leadWelcome_def)
  have b: "map (\<lambda>pm. m_id (pm_msg pm)) ?b = [3, 4, 6]"
    by (simp add: findPendingMessages_def include_lead_def store_of_def msg_of_def)
  have h: "distinct (map (\<lambda>pm. m_id (pm_msg pm)) ?b)
        \<and> (\<forall>m\<in>set (messages ?s). m_id m \<in> (\<lambda>pm. m_id (pm_msg pm)) ` set ?b
               \<longrightarrow> m_status m = PENDING)"
  proof -
    have "(\<lambda>pm. m_id (pm_msg pm)) ` set ?b = set (map (\<lambda>pm. m_id (pm_msg pm)) ?b)" by simp
    then have i: "(\<lambda>pm. m_id (pm_msg pm)) ` set ?b = {3, 4, 6}" unfolding b by simp
    show ?thesis unfolding i b by (simp add: store_of_def msg_of_def)
  qed
  have m2: "monotonic ?s (snd (processBatch sample_runtime 9 deliver_ok 5000 ?b ?s))"
    using t h by blast
  from d m e b m2 show ?thesis by simp
qed

section \<open>Row ids stay distinct\<close>

text \<open>
  Every operation keeps the primary key of the message table intact, so the distinct ids
  that the processor pass relies on hold in every store reached from one with fresh ids
  (the empty store, for one).
\<close>

lemma fresh_ids_distinct: "fresh_ids s \<Longrightarrow> distinct (map m_id (messages s))"
  by (simp add: fresh_ids_def)

lemma fresh_ids_create:
  "fresh_ids s \<Longrightarrow> fresh_ids (snd (whatsAppMessage_create L phone T after s))"
  by (auto simp: fresh_ids_def whatsAppMessage_create_def Let_def list_all_iff)

lemma fresh_ids_map:
  assumes "fresh_ids s" and "\<And>m. m_id (g m) = m_id m"
  shows "fresh_ids (s\<lparr> messages := map g (messages s) \<rparr>)"
proof -
  have "m_id \<circ> g = m_id"
    by (rule ext) (simp add: assms(2))
  with assms show ?thesis by (simp add: fresh_ids_def list_all_iff)
qed

lemma fresh_ids_same:
  "fresh_ids s \<Longrightarrow> messages s' = messages s \<Longrightarrow> next_id s \<le> next_id s' \<Longrightarrow> fresh_ids s'"
  by (auto simp: fresh_ids_def list_all_iff)

lemma fresh_ids_cancelWelcome: "fresh_ids s \<Longrightarrow> fresh_ids (snd (cancelPendingWelcomeMessage L s))"
  unfolding cancelPendingWelcomeMessage_def whatsAppMessage_updateMany_def snd_conv
  by (rule fresh_ids_map) simp_all

lemma fresh_ids_cancelAbandoned: "fresh_ids s \<Longrightarrow> fresh_ids (snd (cancelPendingAbandonedMessage L s))"
  unfolding cancelPendingAbandonedMessage_def whatsAppMessage_updateMany_def snd_conv
  by (rule fresh_ids_map) simp_all

lemma fresh_ids_queueWelcome: "fresh_ids s \<Longrightarrow> fresh_ids (snd (queueLeadWelcomeMessage now ld s))"
  by (auto simp: queueLeadWelcomeMessage_unfold Let_def split_def fresh_ids_create split: option.splits)

lemma fresh_ids_queueAbandoned:
  "fresh_ids s \<Longrightarrow> fresh_ids (snd (queuePaymentAbandonedMessage now ld s))"
  by (auto simp: queuePaymentAbandonedMessage_unfold Let_def split_def fresh_ids_create
      fresh_ids_cancelWelcome split: option.splits)

lemma fresh_ids_queueConfirmed:
  "fresh_ids s \<Longrightarrow> fresh_ids (snd (queuePaymentConfirmedMessage now ld s))"
  by (auto simp: queuePaymentConfirmedMessage_unfold Let_def split_def fresh_ids_create
      fresh_ids_cancelWelcome fresh_ids_cancelAbandoned split: option.splits)

lemma fresh_ids_processMessage:
  assumes "fresh_ids (snd acc)"
  shows "fresh_ids (snd (processMessage rt hour send now pm acc))"
proof -
  obtain f where f: "snd (processMessage rt hour send now pm acc)
                      = whatsAppMessage_update (m_id (pm_msg pm)) f (snd acc)"
    and g: "\<And>m. m_id (f m) = m_id m"
    using processMessage_is_update [of rt hour send now pm acc] by blast
  show ?thesis unfolding f whatsAppMessage_update_def
    using assms by (rule fresh_ids_map) (simp add: g)
qed

lemma fresh_ids_processWhatsAppQueue:
  assumes "fresh_ids s"
  shows "fresh_ids (snd (processWhatsAppQueue rt hour send now s))"
proof -
  have "fresh_ids (snd acc) \<Longrightarrow> fresh_ids (snd (fold (processMessage rt hour send now) pms acc))"
    for pms acc
    by (induction pms arbitrary: acc) (simp_all add: fresh_ids_processMessage)
  from this [of "(r0, s)" for r0] assms show ?thesis by (simp add: processWhatsAppQueue_unfold)
qed

lemma fresh_ids_sweepTransaction:
  assumes "fresh_ids (snd acc)"
  shows "fresh_ids (snd (sweepTransaction now row acc))"
proof -
  have a: "fresh_ids (transaction_update i f (snd acc))" for i f
    using assms by (rule fresh_ids_same) (simp_all add: transaction_update_def)
  show ?thesis using assms
    by (auto simp: sweepTransaction_def Let_def a fresh_ids_queueAbandoned split: option.splits)
qed

lemma fresh_ids_checkExpiredPix:
  assumes "fresh_ids s"
  shows "fresh_ids (snd (checkExpiredPix now s))"
proof -
  have "fresh_ids (snd acc) \<Longrightarrow> fresh_ids (snd (fold (sweepTransaction now) rows acc))"
    for rows acc
    by (induction rows arbitrary: acc) (simp_all add: fresh_ids_sweepTransaction)
  from this [of "(r0, s)" for r0] assms show ?thesis by (simp add: checkExpiredPix_def)
qed

lemma fresh_ids_confirmMeetingAndLead:
  "fresh_ids s \<Longrightarrow> fresh_ids (confirmMeetingAndLead now tx s)"
  by (auto simp: fresh_ids_def list_all_iff confirmMeetingAndLead_def lead_update_def
      meeting_create_def split: option.splits)

lemma fresh_ids_handlers:
  assumes "fresh_ids s"
  shows "fresh_ids (handleChargeCompleted now tx s)"
    and "fresh_ids (handleChargeCompleted_openpix now tx s)"
    and "fresh_ids (handlePaymentIntentSucceeded now paymentIntentId isPix s)"
proof -
  have a: "fresh_ids (transaction_update i f s)" for i f
    using assms by (rule fresh_ids_same) (simp_all add: transaction_update_def)
  show "fresh_ids (handleChargeCompleted now tx s)"
    by (simp add: handleChargeCompleted_def fresh_ids_confirmMeetingAndLead a)
  show "fresh_ids (handleChargeCompleted_openpix now tx s)"
    by (simp add: handleChargeCompleted_openpix_def fresh_ids_confirmMeetingAndLead a)
  show "fresh_ids (handlePaymentIntentSucceeded now paymentIntentId isPix s)"
    using assms
    by (simp add: handlePaymentIntentSucceeded_def fresh_ids_confirmMeetingAndLead a
        split: option.splits)
qed

section \<open>The processor's updates\<close>





section \<open>No duplicates\<close>

lemma active_count_updateMany_cancel:
  "active_count (snd (whatsAppMessage_updateMany P (\<lambda>m. m\<lparr> m_status := CANCELLED \<rparr>) s)) L T
     \<le> active_count s L T"
proof -
  have "length (filter (\<lambda>m. m_lead_id m = L \<and> m_message_type m = T
                          \<and> (m_status m = PENDING \<or> m_status m = SENT))
                 (map (\<lambda>m. if P m then m\<lparr> m_status := CANCELLED \<rparr> else m) xs))
        \<le> length (filter (\<lambda>m. m_lead_id m = L \<and> m_message_type m = T
                          \<and> (m_status m = PENDING \<or> m_status m = SENT)) xs)" for xs
    by (induction xs) auto
  then show ?thesis
    by (simp add: active_count_def whatsAppMessage_updateMany_def)
qed

lemma active_count_create:
  "active_count (snd (whatsAppMessage_create L' phone T' after s)) L T
     = active_count s L T + (if L = L' \<and> T = T' then 1 else 0)"
  by (auto simp: active_count_def whatsAppMessage_create_def Let_def)

lemma active_count_zero:
  "(whatsAppMessage_findFirst
      (\<lambda>m. m_lead_id m = L \<and> m_message_type m = T \<and> (m_status m = PENDING \<or> m_status m = SENT)) s = None)
   = (active_count s L T = 0)"
  by (auto simp: findFirst_message_None active_count_def filter_empty_conv)

lemma active_count_cancelWelcome:
  "active_count (snd (cancelPendingWelcomeMessage L0 s)) L T \<le> active_count s L T"
  unfolding cancelPendingWelcomeMessage_def by (rule active_count_updateMany_cancel)

lemma active_count_cancelAbandoned:
  "active_count (snd (cancelPendingAbandonedMessage L0 s)) L T \<le> active_count s L T"
  unfolding cancelPendingAbandonedMessage_def by (rule active_count_updateMany_cancel)

lemma queueWelcome_keeps:
  assumes "active_count s L T \<le> 1"
  shows "active_count (snd (queueLeadWelcomeMessage now ld s)) L T \<le> 1"
proof (cases "active_count s (l_id ld) LEAD_WELCOME = 0")
  case True
  then have "snd (queueLeadWelcomeMessage now ld s)
        = snd (whatsAppMessage_create (l_id ld) (l_whatsapp ld) LEAD_WELCOME (now + WELCOME_MESSAGE_DELAY_MS) s)"
    using active_count_zero [of "l_id ld" LEAD_WELCOME s]
    by (simp add: queueLeadWelcomeMessage_unfold Let_def split_def)
  then show ?thesis using assms True by (auto simp: active_count_create)
next
  case False
  then show ?thesis using assms active_count_zero [of "l_id ld" LEAD_WELCOME s]
    by (auto simp: queueLeadWelcomeMessage_unfold split: option.splits)
qed

lemma queueAbandoned_keeps:
  assumes "active_count s L T \<le> 1"
  shows "active_count (snd (queuePaymentAbandonedMessage now ld s)) L T \<le> 1"
proof (cases "queuePaymentAbandonedMessage now ld s = (None, s)")
  case True
  then show ?thesis using assms by simp
next
  case False
  then have n: "active_count s (l_id ld) PAYMENT_ABANDONED = 0"
    using active_count_zero [of "l_id ld" PAYMENT_ABANDONED s]
    by (auto simp: queuePaymentAbandonedMessage_unfold split: option.splits)
  from False have e: "snd (queuePaymentAbandonedMessage now ld s)
        = snd (whatsAppMessage_create (l_id ld) (l_whatsapp ld) PAYMENT_ABANDONED now
                 (snd (cancelPendingWelcomeMessage (l_id ld) s)))"
    by (auto simp: queuePaymentAbandonedMessage_unfold Let_def split_def split: option.splits)
  from n active_count_cancelWelcome [of "l_id ld" s "l_id ld" PAYMENT_ABANDONED]
  have z: "active_count (snd (cancelPendingWelcomeMessage (l_id ld) s)) (l_id ld) PAYMENT_ABANDONED = 0"
    by simp
  show ?thesis using assms z active_count_cancelWelcome [of "l_id ld" s L T]
    by (auto simp: e active_count_create)
qed

lemma queueConfirmed_keeps:
  assumes "active_count s L T \<le> 1"
  shows "active_count (snd (queuePaymentConfirmedMessage now ld s)) L T \<le> 1"
proof (cases "queuePaymentConfirmedMessage now ld s = (None, s)")
  case True
  then show ?thesis using assms by simp
next
  case False
  let ?s2 = "snd (cancelPendingAbandonedMessage (l_id ld) (snd (cancelPendingWelcomeMessage (l_id ld) s)))"
  from False have n: "active_count s (l_id ld) PAYMENT_CONFIRMED = 0"
    using active_count_zero [of "l_id ld" PAYMENT_CONFIRMED s]
    by (auto simp: queuePaymentConfirmedMessage_unfold split: option.splits)
  from False have e: "snd (queuePaymentConfirmedMessage now ld s)
        = snd (whatsAppMessage_create (l_id ld) (l_whatsapp ld) PAYMENT_CONFIRMED now ?s2)"
    by (auto simp: queuePaymentConfirmedMessage_unfold Let_def split_def split: option.splits)
  have c: "active_count ?s2 L' T' \<le> active_count s L' T'" for L' T'
    using active_count_cancelWelcome [of "l_id ld" s L' T']
      active_count_cancelAbandoned [of "l_id ld" "snd (cancelPendingWelcomeMessage (l_id ld) s)" L' T']
    by simp
  from n c [of "l_id ld" PAYMENT_CONFIRMED]
  have z: "active_count ?s2 (l_id ld) PAYMENT_CONFIRMED = 0" by simp
  show ?thesis using assms z c [of L T] by (auto simp: e active_count_create)
qed

lemma active_count_same_messages:
  "messages s' = messages s \<Longrightarrow> active_count s' L T = active_count s L T"
  by (simp add: active_count_def)

lemma sweepTransaction_keeps:
  assumes "active_count (snd acc) L T \<le> 1"
  shows "active_count (snd (sweepTransaction now row acc)) L T \<le> 1"
proof -
  have a: "active_count (transaction_update i f s) L T = active_count s L T" for i f s
    by (rule active_count_same_messages) (simp add: transaction_update_def)
  have q: "active_count (snd (queuePaymentAbandonedMessage now l (transaction_update i f (snd acc)))) L T \<le> 1"
    for l i f
    by (rule queueAbandoned_keeps) (insert assms, simp add: a)
  show ?thesis using assms q
    by (auto simp: sweepTransaction_def Let_def a split: option.splits)
qed

lemma checkExpiredPix_keeps:
  assumes "active_count s L T \<le> 1"
  shows "active_count (snd (checkExpiredPix now s)) L T \<le> 1"
proof -
  have "active_count (snd acc) L T \<le> 1
        \<Longrightarrow> active_count (snd (fold (sweepTransaction now) rows acc)) L T \<le> 1" for rows acc
  proof (induction rows arbitrary: acc)
    case Nil
    then show ?case by simp
  next
    case (Cons row rows)
    from Cons.prems have "active_count (snd (sweepTransaction now row acc)) L T \<le> 1"
      by (rule sweepTransaction_keeps)
    then have "active_count (snd (fold (sweepTransaction now) rows (sweepTransaction now row acc))) L T \<le> 1"
      by (rule Cons.IH)
    then show ?case by simp
  qed
  from this [of "(r0, s)" for r0] assms show ?thesis by (simp add: checkExpiredPix_def)
qed

lemma active_count_row_steps:
  assumes "list_all2 row_step xs ys"
  shows "length (filter (\<lambda>m. m_lead_id m = L \<and> m_message_type m = T
                          \<and> (m_status m = PENDING \<or> m_status m = SENT)) ys)
         \<le> length (filter (\<lambda>m. m_lead_id m = L \<and> m_message_type m = T
                          \<and> (m_status m = PENDING \<or> m_status m = SENT)) xs)"
  using assms
  by (induction rule: list_all2_induct) (auto simp: row_step_def status_step_def)

lemma processMessage_length:
  "length (messages (snd (processMessage rt hour send now pm acc))) = length (messages (snd acc))"
  using processMessage_is_update [of rt hour send now pm acc]
  by (auto simp: whatsAppMessage_update_def)

lemma processWhatsAppQueue_length:
  "length (messages (snd (processWhatsAppQueue rt hour send now s))) = length (messages s)"
proof -
  have "length (messages (snd (fold (processMessage rt hour send now) pms acc)))
          = length (messages (snd acc))" for pms acc
    by (induction pms arbitrary: acc) (simp_all add: processMessage_length)
  from this [of _ "(r0, s)" for r0] show ?thesis by (simp add: processWhatsAppQueue_unfold)
qed

lemma processWhatsAppQueue_keeps:
  assumes "distinct (map m_id (messages s))"
  shows "active_count (snd (processWhatsAppQueue rt hour send now s)) L T \<le> active_count s L T"
proof -
  from processWhatsAppQueue_monotonic [OF assms, of rt hour send now]
  have "list_all2 row_step (messages s) (messages (snd (processWhatsAppQueue rt hour send now s)))"
    by (simp add: monotonic_def processWhatsAppQueue_length)
  then show ?thesis unfolding active_count_def by (rule active_count_row_steps)
qed

text \<open>
  C2, as stated for any time, fails when operations overlap. Two calls of
  \<open>queueLeadWelcomeMessage\<close> for a new lead both find no row and both insert: two PENDING
  welcome rows. And a processor loop holding a batch read earlier sends a welcome message
  whose row was cancelled and replaced meanwhile: the old row becomes SENT beside the new
  PENDING one.
\<close>

theorem interleaved_duplicates_counterexample:
  "(\<forall>L T. active_count (store_of [] []) L T \<le> 1)
   \<and> findExistingWelcome sample_lead (store_of [] []) = None
   \<and> active_count
        (snd (queueLeadWelcomeMessage_after None 5000 sample_lead
           (snd (queueLeadWelcomeMessage_after None 5000 sample_lead (store_of [] [])))))
        1 LEAD_WELCOME = 2
   \<and> (\<forall>L T. active_count (store_of [] [msg_of 3 LEAD_WELCOME PENDING 2000]) L T \<le> 1)
   \<and> map (\<lambda>m. (m_id m, m_status m))
        (messages (snd (processBatch sample_runtime 9 deliver_ok 5000
           (findPendingMessages 5000 (store_of [] [msg_of 3 LEAD_WELCOME PENDING 2000]))
           (snd (queueLeadWelcomeMessage 5000 sample_lead
              (snd (cancelPendingWelcomeMessage 1
                 (store_of [] [msg_of 3 LEAD_WELCOME PENDING 2000]))))))))
     = [(3, SENT), (100, PENDING)]
   \<and> active_count
        (snd (processBatch sample_runtime 9 deliver_ok 5000
           (findPendingMessages 5000 (store_of [] [msg_of 3 LEAD_WELCOME PENDING 2000]))
           (snd (queueLeadWelcomeMessage 5000 sample_lead
              (snd (cancelPendingWelcomeMessage 1
                 (store_of [] [msg_of 3 LEAD_WELCOME PENDING 2000])))))))
        1 LEAD_WELCOME = 2"
  by (simp add: processBatch_def findPendingMessages_def include_lead_def
      processMessage_def shouldCancelMessage_def generateMessageText_def
      whatsAppMessage_update_def whatsAppMessage_findFirst_def
      queueLeadWelcomeMessage_unfold queueLeadWelcomeMessage_after_def findExistingWelcome_def
      cancelPendingWelcomeMessage_def WELCOME_MESSAGE_DELAY_MS_def
      whatsAppMessage_updateMany_def whatsAppMessage_create_def active_count_def
      store_of_def msg_of_def sample_lead_def deliver_ok_def Let_def leadWelcome_def)

text \<open>
  C2, amended. No duplicates (I1) for operations that run one after another. In a store
  where every lead and message type has at most one row with status PENDING or SENT: each
  of the three queue functions returns \<open>null\<close> and leaves the store as it is when such a
  row of its type exists for the lead; and after each queue function, each cancellation,
  the sweeper pass and the processor pass (ids distinct), run on that store without another
  operation in between, every lead and message type still has at most one such row.
\<close>

theorem no_duplicates_preserved:
  assumes "\<forall>L T. active_count s L T \<le> 1"
  shows "(1 \<le> active_count s (l_id ld) LEAD_WELCOME \<longrightarrow> queueLeadWelcomeMessage now ld s = (None, s))
       \<and> (1 \<le> active_count s (l_id ld) PAYMENT_ABANDONED \<longrightarrow> queuePaymentAbandonedMessage now ld s = (None, s))
       \<and> (1 \<le> active_count s (l_id ld) PAYMENT_CONFIRMED \<longrightarrow> queuePaymentConfirmedMessage now ld s = (None, s))
       \<and> (\<forall>L T. active_count (snd (queueLeadWelcomeMessage now ld s)) L T \<le> 1)
       \<and> (\<forall>L T. active_count (snd (queuePaymentAbandonedMessage now ld s)) L T \<le> 1)
       \<and> (\<forall>L T. active_count (snd (queuePaymentConfirmedMessage now ld s)) L T \<le> 1)
       \<and> (\<forall>L T. active_count (snd (cancelPendingWelcomeMessage L0 s)) L T \<le> 1)
       \<and> (\<forall>L T. active_count (snd (cancelPendingAbandonedMessage L0 s)) L T \<le> 1)
       \<and> (\<forall>L T. active_count (snd (checkExpiredPix now s)) L T \<le> 1)
       \<and> (distinct (map m_id (messages s))
            \<longrightarrow> (\<forall>L T. active_count (snd (processWhatsAppQueue rt hour send now s)) L T \<le> 1))"
proof (intro conjI impI allI)
  assume "1 \<le> active_count s (l_id ld) LEAD_WELCOME"
  then show "queueLeadWelcomeMessage now ld s = (None, s)"
    using active_count_zero [of "l_id ld" LEAD_WELCOME s]
    by (auto simp: queueLeadWelcomeMessage_unfold split: option.splits)
next
  assume "1 \<le> active_count s (l_id ld) PAYMENT_ABANDONED"
  then show "queuePaymentAbandonedMessage now ld s = (None, s)"
    using active_count_zero [of "l_id ld" PAYMENT_ABANDONED s]
    by (auto simp: queuePaymentAbandonedMessage_unfold split: option.splits)
next
  assume "1 \<le> active_count s (l_id ld) PAYMENT_CONFIRMED"
  then show "queuePaymentConfirmedMessage now ld s = (None, s)"
    using active_count_zero [of "l_id ld" PAYMENT_CONFIRMED s]
    by (auto simp: queuePaymentConfirmedMessage_unfold split: option.splits)
next
  fix L T show "active_count (snd (queueLeadWelcomeMessage now ld s)) L T \<le> 1"
    by (rule queueWelcome_keeps) (insert assms, simp)
next
  fix L T show "active_count (snd (queuePaymentAbandonedMessage now ld s)) L T \<le> 1"
    by (rule queueAbandoned_keeps) (insert assms, simp)
next
  fix L T show "active_count (snd (queuePaymentConfirmedMessage now ld s)) L T \<le> 1"
    by (rule queueConfirmed_keeps) (insert assms, simp)
next
  fix L T show "active_count (snd (cancelPendingWelcomeMessage L0 s)) L T \<le> 1"
    using assms active_count_cancelWelcome [of L0 s L T] by (auto intro: order_trans)
next
  fix L T show "active_count (snd (cancelPendingAbandonedMessage L0 s)) L T \<le> 1"
    using assms active_count_cancelAbandoned [of L0 s L T] by (auto intro: order_trans)
next
  fix L T show "active_count (snd (checkExpiredPix now s)) L T \<le> 1"
    by (rule checkExpiredPix_keeps) (insert assms, simp)
next
  fix L T assume "distinct (map m_id (messages s))"
  from processWhatsAppQueue_keeps [OF this, of rt hour send now L T] assms
  show "active_count (snd (processWhatsAppQueue rt hour send now s)) L T \<le> 1"
    by (auto intro: order_trans)
qed

theorem no_duplicates_preserved_witness:
  "(\<forall>L T. active_count
       (store_of [] [msg_of 3 LEAD_WELCOME PENDING 2000, msg_of 4 PAYMENT_ABANDONED SENT 3000,
                     msg_of 5 PAYMENT_CONFIRMED PENDING 4000]) L T \<le> 1)
   \<and> distinct (map m_id (messages
       (store_of [] [msg_of 3 LEAD_WELCOME PENDING 2000, msg_of 4 PAYMENT_ABANDONED SENT 3000,
                     msg_of 5 PAYMENT_CONFIRMED PENDING 4000])))
   \<and> 1 \<le> active_count
       (store_of [] [msg_of 3 LEAD_WELCOME PENDING 2000, msg_of 4 PAYMENT_ABANDONED SENT 3000,
                     msg_of 5 PAYMENT_CONFIRMED PENDING 4000]) (l_id sample_lead) LEAD_WELCOME
   \<and> 1 \<le> active_count
       (store_of [] [msg_of 3 LEAD_WELCOME PENDING 2000, msg_of 4 PAYMENT_ABANDONED SENT 3000,
                     msg_of 5 PAYMENT_CONFIRMED PENDING 4000]) (l_id sample_lead) PAYMENT_ABANDONED
   \<and> 1 \<le> active_count
       (store_of [] [msg_of 3 LEAD_WELCOME PENDING 2000, msg_of 4 PAYMENT_ABANDONED SENT 3000,
                     msg_of 5 PAYMENT_CONFIRMED PENDING 4000]) (l_id sample_lead) PAYMENT_CONFIRMED
   \<and> queueLeadWelcomeMessage 5000 sample_lead
       (store_of [] [msg_of 3 LEAD_WELCOME PENDING 2000, msg_of 4 PAYMENT_ABANDONED SENT 3000,
                     msg_of 5 PAYMENT_CONFIRMED PENDING 4000])
      = (None, store_of [] [msg_of 3 LEAD_WELCOME PENDING 2000, msg_of 4 PAYMENT_ABANDONED SENT 3000,
                     msg_of 5 PAYMENT_CONFIRMED PENDING 4000])
   \<and> queuePaymentAbandonedMessage 5000 sample_lead
       (store_of [] [msg_of 3 LEAD_WELCOME PENDING 2000, msg_of 4 PAYMENT_ABANDONED SENT 3000,
                     msg_of 5 PAYMENT_CONFIRMED PENDING 4000])
      = (None, store_of [] [msg_of 3 LEAD_WELCOME PENDING 2000, msg_of 4 PAYMENT_ABANDONED SENT 3000,
                     msg_of 5 PAYMENT_CONFIRMED PENDING 4000])
   \<and> queuePaymentConfirmedMessage 5000 sample_lead
       (store_of [] [msg_of 3 LEAD_WELCOME PENDING 2000, msg_of 4 PAYMENT_ABANDONED SENT 3000,
                     msg_of 5 PAYMENT_CONFIRMED PENDING 4000])
      = (None, store_of [] [msg_of 3 LEAD_WELCOME PENDING 2000, msg_of 4 PAYMENT_ABANDONED SENT 3000,
                     msg_of 5 PAYMENT_CONFIRMED PENDING 4000])
   \<and> (\<forall>L T. active_count (snd (processWhatsAppQueue sample_runtime 9 deliver_ok 5000
       (store_of [] [msg_of 3 LEAD_WELCOME PENDING 2000, msg_of 4 PAYMENT_ABANDONED SENT 3000,
                     msg_of 5 PAYMENT_CONFIRMED PENDING 4000]))) L T \<le> 1)
   \<and> (\<forall>L T. active_count (store_of [] [msg_of 4 PAYMENT_ABANDONED SENT 3000]) L T \<le> 1)
   \<and> (\<forall>L T. active_count (snd (queueLeadWelcomeMessage 5000 sample_lead
                 (store_of [] [msg_of 4 PAYMENT_ABANDONED SENT 3000]))) L T \<le> 1)
   \<and> messages (snd (queueLeadWelcomeMessage 5000 sample_lead
                 (store_of [] [msg_of 4 PAYMENT_ABANDONED SENT 3000])))
      = [msg_of 4 PAYMENT_ABANDONED SENT 3000, msg_of 100 LEAD_WELCOME PENDING 125000]"
proof -
  let ?s = "store_of [] [msg_of 3 LEAD_WELCOME PENDING 2000, msg_of 4 PAYMENT_ABANDONED SENT 3000,
                     msg_of 5 PAYMENT_CONFIRMED PENDING 4000]"
  let ?s1 = "store_of [] [msg_of 4 PAYMENT_ABANDONED SENT 3000]"
  have i: "\<forall>L T. active_count ?s L T \<le> 1"
    by (simp add: active_count_def store_of_def msg_of_def)
  have i1: "\<forall>L T. active_count ?s1 L T \<le> 1"
    by (simp add: active_count_def store_of_def msg_of_def)
  have d: "distinct (map m_id (messages ?s))"
    by (simp add: store_of_def msg_of_def)
  have w: "1 \<le> active_count ?s (l_id sample_lead) LEAD_WELCOME"
    and a: "1 \<le> active_count ?s (l_id sample_lead) PAYMENT_ABANDONED"
    and c: "1 \<le> active_count ?s (l_id sample_lead) PAYMENT_CONFIRMED"
    by (simp_all add: active_count_def store_of_def msg_of_def sample_lead_def)
  have e: "messages (snd (queueLeadWelcomeMessage 5000 sample_lead ?s1))
      = [msg_of 4 PAYMENT_ABANDONED SENT 3000, msg_of 100 LEAD_WELCOME PENDING 125000]"
    by (simp add: queueLeadWelcomeMessage_unfold whatsAppMessage_findFirst_def
        whatsAppMessage_create_def WELCOME_MESSAGE_DELAY_MS_def Let_def
        store_of_def msg_of_def sample_lead_def)
  note t = no_duplicates_preserved [OF i, of sample_lead 5000 _ sample_runtime 9 deliver_ok]
  note t1 = no_duplicates_preserved [OF i1, of sample_lead 5000]
  from t w have "queueLeadWelcomeMessage 5000 sample_lead ?s = (None, ?s)" by blast
  moreover from t a have "queuePaymentAbandonedMessage 5000 sample_lead ?s = (None, ?s)" by blast
  moreover from t c have "queuePaymentConfirmedMessage 5000 sample_lead ?s = (None, ?s)" by blast
  moreover from t d
  have "\<forall>L T. active_count (snd (processWhatsAppQueue sample_runtime 9 deliver_ok 5000 ?s)) L T \<le> 1"
    by blast
  moreover from t1
  have "\<forall>L T. active_count (snd (queueLeadWelcomeMessage 5000 sample_lead ?s1)) L T \<le> 1"
    by blast
  ultimately show ?thesis using i i1 d w a c e by blast
qed

section \<open>The welcome message and transactions\<close>

lemma include_lead_transactions:
  assumes "include_lead s L = Some li" and "t \<in> set (transactions s)" and "t_lead_id t = L"
  shows "li_transactions li \<noteq> []"
proof -
  let ?xs = "sort_key (\<lambda>t. - t_created_at t) (filter (\<lambda>t. t_lead_id t = L) (transactions s))"
  from assms(2,3) have "t \<in> set ?xs" by simp
  then have "0 < length ?xs" by (rule length_pos_if_in_set)
  then have "take 1 ?xs \<noteq> []" by (cases ?xs) simp_all
  with assms(1) show ?thesis by (auto simp: include_lead_def)
qed

text \<open>
  C10. \<open>queueLeadWelcomeMessage\<close> does not look at transactions: when the lead has no
  welcome row with status PENDING or SENT, it appends a new PENDING welcome row due two
  minutes later, whatever the transaction table \<open>txs\<close> holds. The welcome message of a
  lead with a transaction is suppressed at processing time: \<open>shouldCancelMessage\<close> answers
  \<open>payment_attempted\<close> and the processor marks the row CANCELLED.
\<close>

theorem welcome_ignores_transactions:
  "((\<forall>m\<in>set (messages s). \<not> (m_lead_id m = l_id ld \<and> m_message_type m = LEAD_WELCOME
                                  \<and> (m_status m = PENDING \<or> m_status m = SENT)))
      \<longrightarrow> queueLeadWelcomeMessage now ld (s\<lparr> transactions := txs \<rparr>)
          = (Some \<lparr> m_id = next_id s, m_lead_id = l_id ld, m_phone = l_whatsapp ld,
                    m_message_type = LEAD_WELCOME, m_status = PENDING,
                    m_send_after = now + 2 * 60 * 1000, m_message_text = None,
                    m_sent_at = None, m_error = None, m_updated_at = None \<rparr>,
             s\<lparr> transactions := txs,
                messages := messages s @
                  [\<lparr> m_id = next_id s, m_lead_id = l_id ld, m_phone = l_whatsapp ld,
                     m_message_type = LEAD_WELCOME, m_status = PENDING,
                     m_send_after = now + 2 * 60 * 1000, m_message_text = None,
                     m_sent_at = None, m_error = None, m_updated_at = None \<rparr>],
                next_id := Suc (next_id s) \<rparr>))
   \<and> (include_lead s' (m_lead_id msg) = Some li \<and> t \<in> set (transactions s')
        \<and> t_lead_id t = m_lead_id msg \<and> m_message_type msg = LEAD_WELCOME
      \<longrightarrow> shouldCancelMessage s'' msg li = Some ''payment_attempted''
          \<and> snd (processMessage rt hour send now' \<lparr> pm_msg = msg, pm_lead = Some li \<rparr> (r, s''))
              = whatsAppMessage_update (m_id msg)
                  (\<lambda>m. m\<lparr> m_status := CANCELLED, m_updated_at := Some now' \<rparr>) s'')"
proof (intro conjI impI)
  assume "\<forall>m\<in>set (messages s). \<not> (m_lead_id m = l_id ld \<and> m_message_type m = LEAD_WELCOME
                                  \<and> (m_status m = PENDING \<or> m_status m = SENT))"
  then have "whatsAppMessage_findFirst
             (\<lambda>m. m_lead_id m = l_id ld \<and> m_message_type m = LEAD_WELCOME
                   \<and> (m_status m = PENDING \<or> m_status m = SENT)) (s\<lparr> transactions := txs \<rparr>) = None"
    by (simp add: findFirst_message_None)
  then show "queueLeadWelcomeMessage now ld (s\<lparr> transactions := txs \<rparr>)
          = (Some \<lparr> m_id = next_id s, m_lead_id = l_id ld, m_phone = l_whatsapp ld,
                    m_message_type = LEAD_WELCOME, m_status = PENDING,
                    m_send_after = now + 2 * 60 * 1000, m_message_text = None,
                    m_sent_at = None, m_error = None, m_updated_at = None \<rparr>,
             s\<lparr> transactions := txs,
                messages := messages s @
                  [\<lparr> m_id = next_id s, m_lead_id = l_id ld, m_phone = l_whatsapp ld,
                     m_message_type = LEAD_WELCOME, m_status = PENDING,
                     m_send_after = now + 2 * 60 * 1000, m_message_text = None,
                     m_sent_at = None, m_error = None, m_updated_at = None \<rparr>],
                next_id := Suc (next_id s) \<rparr>)"
    by (simp add: queueLeadWelcomeMessage_unfold whatsAppMessage_create_def
        WELCOME_MESSAGE_DELAY_MS_def Let_def)
next
  assume h: "include_lead s' (m_lead_id msg) = Some li \<and> t \<in> set (transactions s')
        \<and> t_lead_id t = m_lead_id msg \<and> m_message_type msg = LEAD_WELCOME"
  then have ne: "li_transactions li \<noteq> []"
    using include_lead_transactions [of s' "m_lead_id msg" li t] by blast
  with h show c: "shouldCancelMessage s'' msg li = Some ''payment_attempted''"
    by (auto simp: shouldCancelMessage_def Let_def split: list.splits)
  then show "snd (processMessage rt hour send now' \<lparr> pm_msg = msg, pm_lead = Some li \<rparr> (r, s''))
              = whatsAppMessage_update (m_id msg)
                  (\<lambda>m. m\<lparr> m_status := CANCELLED, m_updated_at := Some now' \<rparr>) s''"
    by (simp add: processMessage_def Let_def)
qed

theorem welcome_ignores_transactions_witness:
  "queueLeadWelcomeMessage 5000 sample_lead (store_of [tx_of 7 succeeded 1000] [])
     = (Some (msg_of 100 LEAD_WELCOME PENDING 125000),
        (store_of [tx_of 7 succeeded 1000] [msg_of 100 LEAD_WELCOME PENDING 125000])
          \<lparr> next_id := 101 \<rparr>)
   \<and> include_lead ((store_of [tx_of 7 succeeded 1000] [msg_of 100 LEAD_WELCOME PENDING 125000])
          \<lparr> next_id := 101 \<rparr>) (m_lead_id (msg_of 100 LEAD_WELCOME PENDING 125000))
      = Some \<lparr> li_lead = sample_lead, li_transactions = [tx_of 7 succeeded 1000], li_meetings = [] \<rparr>
   \<and> tx_of 7 succeeded 1000
       \<in> set (transactions ((store_of [tx_of 7 succeeded 1000] [msg_of 100 LEAD_WELCOME PENDING 125000])
          \<lparr> next_id := 101 \<rparr>))
   \<and> shouldCancelMessage
        ((store_of [tx_of 7 succeeded 1000] [msg_of 100 LEAD_WELCOME PENDING 125000]) \<lparr> next_id := 101 \<rparr>)
        (msg_of 100 LEAD_WELCOME PENDING 125000)
        \<lparr> li_lead = sample_lead, li_transactions = [tx_of 7 succeeded 1000], li_meetings = [] \<rparr>
      = Some ''payment_attempted''
   \<and> map m_status (messages (snd (processMessage sample_runtime 9 deliver_ok 130000
        \<lparr> pm_msg = msg_of 100 LEAD_WELCOME PENDING 125000,
          pm_lead = Some \<lparr> li_lead = sample_lead, li_transactions = [tx_of 7 succeeded 1000],
                           li_meetings = [] \<rparr> \<rparr>
        (no_results,
         (store_of [tx_of 7 succeeded 1000] [msg_of 100 LEAD_WELCOME PENDING 125000])
           \<lparr> next_id := 101 \<rparr>)))) = [CANCELLED]"
proof -
  let ?s = "store_of [tx_of 7 succeeded 1000] []"
  let ?m = "msg_of 100 LEAD_WELCOME PENDING 125000"
  let ?s' = "(store_of [tx_of 7 succeeded 1000] [?m]) \<lparr> next_id := 101 \<rparr>"
  let ?li = "\<lparr> li_lead = sample_lead, li_transactions = [tx_of 7 succeeded 1000], li_meetings = [] \<rparr>"
  note t = welcome_ignores_transactions
             [of ?s sample_lead 5000 "[tx_of 7 succeeded 1000]" ?s' ?m ?li "tx_of 7 succeeded 1000"
                 ?s' sample_runtime 9 deliver_ok 130000 no_results]
  have h1: "\<forall>m\<in>set (messages ?s). \<not> (m_lead_id m = l_id sample_lead \<and> m_message_type m = LEAD_WELCOME
                                  \<and> (m_status m = PENDING \<or> m_status m = SENT))"
    by (simp add: store_of_def)
  have h2: "include_lead ?s' (m_lead_id ?m) = Some ?li \<and> tx_of 7 succeeded 1000 \<in> set (transactions ?s')
        \<and> t_lead_id (tx_of 7 succeeded 1000) = m_lead_id ?m \<and> m_message_type ?m = LEAD_WELCOME"
    by (simp add: include_lead_def store_of_def msg_of_def tx_of_def sample_lead_def)
  from t h1 have a: "queueLeadWelcomeMessage 5000 sample_lead (?s\<lparr> transactions := [tx_of 7 succeeded 1000] \<rparr>)
          = (Some \<lparr> m_id = next_id ?s, m_lead_id = l_id sample_lead, m_phone = l_whatsapp sample_lead,
                    m_message_type = LEAD_WELCOME, m_status = PENDING,
                    m_send_after = 5000 + 2 * 60 * 1000, m_message_text = None,
                    m_sent_at = None, m_error = None, m_updated_at = None \<rparr>,
             ?s\<lparr> transactions := [tx_of 7 succeeded 1000],
                messages := messages ?s @
                  [\<lparr> m_id = next_id ?s, m_lead_id = l_id sample_lead, m_phone = l_whatsapp sample_lead,
                     m_message_type = LEAD_WELCOME, m_status = PENDING,
                     m_send_after = 5000 + 2 * 60 * 1000, m_message_text = None,
                     m_sent_at = None, m_error = None, m_updated_at = None \<rparr>],
                next_id := Suc (next_id ?s) \<rparr>)"
    by blast
  from t h2 have b: "shouldCancelMessage ?s' ?m ?li = Some ''payment_attempted''
          \<and> snd (processMessage sample_runtime 9 deliver_ok 130000 \<lparr> pm_msg = ?m, pm_lead = Some ?li \<rparr> (no_results, ?s'))
              = whatsAppMessage_update (m_id ?m)
                  (\<lambda>m. m\<lparr> m_status := CANCELLED, m_updated_at := Some 130000 \<rparr>) ?s'"
    by blast
  from a have a': "queueLeadWelcomeMessage 5000 sample_lead ?s = (Some ?m, ?s')"
    by (simp add: store_of_def msg_of_def sample_lead_def)
  from b have b': "map m_status (messages (snd (processMessage sample_runtime 9 deliver_ok 130000
        \<lparr> pm_msg = ?m, pm_lead = Some ?li \<rparr> (no_results, ?s')))) = [CANCELLED]"
    by (simp add: whatsAppMessage_update_def store_of_def msg_of_def)
  from a' b b' h2 show ?thesis by simp
qed

section \<open>The expiry sweeper run twice\<close>

lemma pendingPixWhere_minutes:
  assumes "pendingPixWhere now t"
  shows "16 \<le> (now - t_created_at t) div 1000 div 60"
proof -
  from assms have "960000 \<le> now - t_created_at t" by (simp add: pendingPixWhere_def)
  then have "960 \<le> (now - t_created_at t) div 1000" by linarith
  then show ?thesis by linarith
qed

lemma queueAbandoned_transactions:
  "transactions (snd (queuePaymentAbandonedMessage now ld s)) = transactions s"
  by (auto simp: queuePaymentAbandonedMessage_unfold cancelPendingWelcomeMessage_def
      whatsAppMessage_updateMany_def whatsAppMessage_create_def Let_def split_def
      split: option.splits)

lemma sweepTransaction_transactions:
  assumes "pendingPixWhere now (fst row)"
  shows "transactions (snd (sweepTransaction now row acc))
         = map (\<lambda>x. if t_id x = t_id (fst row) then x\<lparr> t_status := canceled \<rparr> else x)
             (transactions (snd acc))"
  using pendingPixWhere_minutes [OF assms]
  by (auto simp: sweepTransaction_def Let_def queueAbandoned_transactions transaction_update_def
      split: option.splits)

lemma sweep_fold_transactions:
  assumes "\<And>row. row \<in> set rows \<Longrightarrow> pendingPixWhere now (fst row)"
  shows "transactions (snd (fold (sweepTransaction now) rows acc))
         = map (\<lambda>x. if t_id x \<in> (\<lambda>row. t_id (fst row)) ` set rows
                     then x\<lparr> t_status := canceled \<rparr> else x)
             (transactions (snd acc))"
  using assms
proof (induction rows arbitrary: acc)
  case Nil
  show ?case by simp
next
  case (Cons row rows)
  have a: "transactions (snd (sweepTransaction now row acc))
         = map (\<lambda>x. if t_id x = t_id (fst row) then x\<lparr> t_status := canceled \<rparr> else x)
             (transactions (snd acc))"
    by (rule sweepTransaction_transactions) (simp add: Cons.prems)
  have b: "transactions (snd (fold (sweepTransaction now) rows (sweepTransaction now row acc)))
         = map (\<lambda>x. if t_id x \<in> (\<lambda>row. t_id (fst row)) ` set rows
                     then x\<lparr> t_status := canceled \<rparr> else x)
             (transactions (snd (sweepTransaction now row acc)))"
    by (rule Cons.IH) (simp add: Cons.prems)
  show ?case unfolding fold_simps b a by (auto simp: comp_def)
qed

lemma first_sweep_transactions:
  assumes "length (filter (pendingPixWhere now) (transactions s)) \<le> 50"
  shows "transactions (snd (checkExpiredPix now s))
         = map (\<lambda>x. if t_id x \<in> t_id ` {t \<in> set (transactions s). pendingPixWhere now t}
                     then x\<lparr> t_status := canceled \<rparr> else x)
             (transactions s)"
proof -
  from assms have t: "take 50 (filter (pendingPixWhere now) (transactions s))
                      = filter (pendingPixWhere now) (transactions s)"
    by simp
  have r: "row \<in> set (findPendingPixTransactions now s) \<Longrightarrow> pendingPixWhere now (fst row)" for row
    by (auto simp: findPendingPixTransactions_def dest: in_set_takeD)
  have i: "(\<lambda>row. t_id (fst row)) ` set (findPendingPixTransactions now s)
           = t_id ` {t \<in> set (transactions s). pendingPixWhere now t}"
    unfolding findPendingPixTransactions_def t by (auto simp: image_iff)
  show ?thesis
    unfolding checkExpiredPix_def
    using sweep_fold_transactions [of "findPendingPixTransactions now s" now, OF r]
    by (simp add: i)
qed

text \<open>
  C9, amended. Sweeper idempotence within the batch limit. If at most 50 transactions
  match the selection filter at \<open>now\<close>, and no unpaid PIX transaction crosses the
  16-minute line between \<open>now\<close> and the time \<open>now'\<close> of the second run (none at all when
  the runs are at the same instant), then after the first run no transaction matches the
  filter of the second run, whose counters are all 0, \<open>expired\<close> among them.
\<close>

theorem sweeper_second_run_finds_nothing:
  assumes "length (filter (pendingPixWhere now) (transactions s)) \<le> 50"
    and "\<forall>t\<in>set (transactions s).
           \<not> (t_payment_method t = pix
               \<and> (t_status t = processing \<or> t_status t = requires_payment_method)
               \<and> now - 16 * 60 * 1000 < t_created_at t
               \<and> t_created_at t \<le> now' - 16 * 60 * 1000)"
  shows "filter (pendingPixWhere now') (transactions (snd (checkExpiredPix now s))) = []
       \<and> fst (checkExpiredPix now' (snd (checkExpiredPix now s)))
           = \<lparr> checked = 0, expired = 0, queued = 0, errors = 0 \<rparr>"
proof -
  let ?s' = "snd (checkExpiredPix now s)"
  have f: "filter (pendingPixWhere now') (transactions ?s') = []"
    unfolding first_sweep_transactions [OF assms(1)] filter_empty_conv
  proof
    fix y
    assume "y \<in> set (map (\<lambda>x. if t_id x \<in> t_id ` {t \<in> set (transactions s). pendingPixWhere now t}
                     then x\<lparr> t_status := canceled \<rparr> else x) (transactions s))"
    then obtain x where x: "x \<in> set (transactions s)"
      and y: "y = (if t_id x \<in> t_id ` {t \<in> set (transactions s). pendingPixWhere now t}
                     then x\<lparr> t_status := canceled \<rparr> else x)"
      by auto
    show "\<not> pendingPixWhere now' y"
    proof (cases "t_id x \<in> t_id ` {t \<in> set (transactions s). pendingPixWhere now t}")
      case True
      with y show ?thesis by (simp add: pendingPixWhere_def)
    next
      case False
      with x have "\<not> pendingPixWhere now x" by auto
      with assms(2) x have "\<not> pendingPixWhere now' x"
        by (auto simp: pendingPixWhere_def)
      with False y show ?thesis by simp
    qed
  qed
  then have "findPendingPixTransactions now' ?s' = []"
    by (simp add: findPendingPixTransactions_def)
  then have "fst (checkExpiredPix now' ?s') = \<lparr> checked = 0, expired = 0, queued = 0, errors = 0 \<rparr>"
    by (simp add: checkExpiredPix_def)
  with f show ?thesis by simp
qed

text \<open>
  C9, as stated for any store, fails: a run takes at most 50 transactions. With 51 expired
  PIX transactions the first run cancels 50 of them and the second run, at the same
  instant, finds the last one: \<open>expired = 1\<close>.
\<close>

theorem sweeper_batch_limit_counterexample:
  "expired (fst (checkExpiredPix 1000000 store51)) = 50
   \<and> expired (fst (checkExpiredPix 1000000 (snd (checkExpiredPix 1000000 store51)))) = 1"
  by code_simp

theorem sweeper_second_run_finds_nothing_witness:
  "length (filter (pendingPixWhere 1000000)
      (transactions (store_of [tx_of 7 processing 0, tx_of 8 succeeded 0,
                               tx_of 9 requires_payment_method 500000] []))) \<le> 50
   \<and> fst (checkExpiredPix 1000000
        (store_of [tx_of 7 processing 0, tx_of 8 succeeded 0,
                   tx_of 9 requires_payment_method 500000] []))
      = \<lparr> checked = 1, expired = 1, queued = 1, errors = 0 \<rparr>
   \<and> fst (checkExpiredPix 1001000 (snd (checkExpiredPix 1000000
        (store_of [tx_of 7 processing 0, tx_of 8 succeeded 0,
                   tx_of 9 requires_payment_method 500000] []))))
      = \<lparr> checked = 0, expired = 0, queued = 0, errors = 0 \<rparr>"
proof -
  let ?s = "store_of [tx_of 7 processing 0, tx_of 8 succeeded 0,
                      tx_of 9 requires_payment_method 500000] []"
  have h1: "length (filter (pendingPixWhere 1000000) (transactions ?s)) \<le> 50"
    by (simp add: store_of_def)
  have h2: "\<forall>t\<in>set (transactions ?s).
           \<not> (t_payment_method t = pix
               \<and> (t_status t = processing \<or> t_status t = requires_payment_method)
               \<and> 1000000 - 16 * 60 * 1000 < t_created_at t
               \<and> t_created_at t \<le> 1001000 - 16 * 60 * 1000)"
    by (simp add: store_of_def tx_of_def)
  have e: "fst (checkExpiredPix 1000000 ?s) = \<lparr> checked = 1, expired = 1, queued = 1, errors = 0 \<rparr>"
    by (simp add: checkExpiredPix_def findPendingPixTransactions_def pendingPixWhere_def
        sweepTransaction_def store_of_def tx_of_def sample_lead_def Let_def)
  from sweeper_second_run_finds_nothing [OF h1 h2] h1 e show ?thesis by simp
qed

section \<open>Abandoned messages and succeeded payments at processing time\<close>

text \<open>
  C3 does not hold of the code: the processor looks only at the latest transaction of the
  lead. Here the lead has a succeeded transaction and a later one that is still
  processing; the due PAYMENT_ABANDONED message is not cancelled, it is rendered and sent.
  The queue writer, in contrast, looks for any succeeded transaction of the lead before it
  queues such a message.
\<close>

theorem abandoned_sent_despite_earlier_success:
  "tx_of 7 succeeded 1000
     \<in> set (transactions (store_of [tx_of 7 succeeded 1000, tx_of 8 processing 2000]
                             [msg_of 4 PAYMENT_ABANDONED PENDING 3000]))
   \<and> t_lead_id (tx_of 7 succeeded 1000) = m_lead_id (msg_of 4 PAYMENT_ABANDONED PENDING 3000)
   \<and> t_status (tx_of 7 succeeded 1000) = succeeded
   \<and> map pm_msg (findPendingMessages 5000
         (store_of [tx_of 7 succeeded 1000, tx_of 8 processing 2000]
                   [msg_of 4 PAYMENT_ABANDONED PENDING 3000]))
      = [msg_of 4 PAYMENT_ABANDONED PENDING 3000]
   \<and> fst (processWhatsAppQueue sample_runtime 9 deliver_ok 5000
         (store_of [tx_of 7 succeeded 1000, tx_of 8 processing 2000]
                   [msg_of 4 PAYMENT_ABANDONED PENDING 3000]))
      = \<lparr> processed = 1, sent = 1, failed = 0, cancelled = 0 \<rparr>
   \<and> map m_status (messages (snd (processWhatsAppQueue sample_runtime 9 deliver_ok 5000
         (store_of [tx_of 7 succeeded 1000, tx_of 8 processing 2000]
                   [msg_of 4 PAYMENT_ABANDONED PENDING 3000]))))
      = [SENT]"
  by (simp add: processWhatsAppQueue_unfold findPendingMessages_def include_lead_def
      processMessage_def shouldCancelMessage_def generateMessageText_def
      whatsAppMessage_update_def whatsAppMessage_findFirst_def
      store_of_def msg_of_def tx_of_def sample_lead_def deliver_ok_def Let_def
      paymentAbandoned_def)

section \<open>The payment-success handlers and the queue\<close>

lemma confirmMeetingAndLead_messages:
  "messages (confirmMeetingAndLead now tx s) = messages s"
  by (simp add: confirmMeetingAndLead_def lead_update_def meeting_create_def split: option.splits)

lemma success_handlers_leave_queue:
  "messages (handleChargeCompleted now tx s) = messages s
   \<and> messages (handleChargeCompleted_openpix now tx s) = messages s
   \<and> messages (handlePaymentIntentSucceeded now paymentIntentId isPix s) = messages s"
  by (simp add: handleChargeCompleted_def handleChargeCompleted_openpix_def
      handlePaymentIntentSucceeded_def confirmMeetingAndLead_messages transaction_update_def
      split: option.splits)

text \<open>
  C1 does not hold of the code: the handlers of a completed charge mark the transaction
  succeeded and leave the message table as it is. The PENDING welcome and abandoned
  messages of the lead stay PENDING and no PAYMENT_CONFIRMED row appears; the last
  conjunct shows the table \<open>queuePaymentConfirmedMessage\<close> would have produced.
\<close>

theorem payment_success_leaves_queue_untouched:
  "map t_status (transactions (handleChargeCompleted 4000 (tx_of 7 processing 1000)
       (store_of [tx_of 7 processing 1000]
          [msg_of 3 LEAD_WELCOME PENDING 2000, msg_of 4 PAYMENT_ABANDONED PENDING 3000])))
     = [succeeded]
   \<and> messages (handleChargeCompleted 4000 (tx_of 7 processing 1000)
       (store_of [tx_of 7 processing 1000]
          [msg_of 3 LEAD_WELCOME PENDING 2000, msg_of 4 PAYMENT_ABANDONED PENDING 3000]))
     = [msg_of 3 LEAD_WELCOME PENDING 2000, msg_of 4 PAYMENT_ABANDONED PENDING 3000]
   \<and> map t_status (transactions (handleChargeCompleted_openpix 4000 (tx_of 7 processing 1000)
       (store_of [tx_of 7 processing 1000]
          [msg_of 3 LEAD_WELCOME PENDING 2000, msg_of 4 PAYMENT_ABANDONED PENDING 3000])))
     = [succeeded]
   \<and> messages (handleChargeCompleted_openpix 4000 (tx_of 7 processing 1000)
       (store_of [tx_of 7 processing 1000]
          [msg_of 3 LEAD_WELCOME PENDING 2000, msg_of 4 PAYMENT_ABANDONED PENDING 3000]))
     = [msg_of 3 LEAD_WELCOME PENDING 2000, msg_of 4 PAYMENT_ABANDONED PENDING 3000]
   \<and> messages (snd (queuePaymentConfirmedMessage 4000 sample_lead
       (store_of [tx_of 7 processing 1000]
          [msg_of 3 LEAD_WELCOME PENDING 2000, msg_of 4 PAYMENT_ABANDONED PENDING 3000])))
     = [msg_of 3 LEAD_WELCOME CANCELLED 2000, msg_of 4 PAYMENT_ABANDONED CANCELLED 3000,
        msg_of 100 PAYMENT_CONFIRMED PENDING 4000]"
  by (simp add: handleChargeCompleted_def handleChargeCompleted_openpix_def
      confirmMeetingAndLead_def lead_update_def meeting_create_def transaction_update_def
      queuePaymentConfirmedMessage_unfold cancelPendingWelcomeMessage_def
      cancelPendingAbandonedMessage_def whatsAppMessage_updateMany_def
      whatsAppMessage_create_def whatsAppMessage_findFirst_def
      store_of_def msg_of_def tx_of_def sample_lead_def Let_def)

section \<open>The confirmation template on malformed dates\<close>

text \<open>
  C7, as stated, fails: with a missing meeting date the template returns a text, and the
  text holds "Invalid Date" where the date belongs.
\<close>

theorem confirmation_renders_invalid_date_counterexample:
  "newDate sample_runtime JUndefined = None
   \<and> paymentConfirmed sample_runtime 9 ''Ana Silva'' JUndefined (JDate (Some 68400000))
      = ''Ola Ana, bom dia, tudo bom? Vi que voce efetivou a compra da otimizacao, seu horario e as 19:00 e demoramos 4 horas pra fazer a otimizacao, caso queira remarcar, so me avisar, te espero no dia Invalid Date as 19:00 pelo discord, forte abraco''"
  by code_simp

text \<open>
  C7, amended. The template never fails on its date inputs. If the meeting date or the
  meeting time is malformed (its Date is invalid), the text it returns contains
  "Invalid Date"; and the processor's \<open>generateMessageText\<close> returns the template's text
  for every confirmation message whose lead has a meeting, whatever the meeting's date and
  time hold.
\<close>

theorem confirmation_renders_invalid_date:
  "(newDate rt meetingDate = None
      \<longrightarrow> sublist ''Invalid Date'' (paymentConfirmed rt hour nome meetingDate meetingTime))
   \<and> (newDate rt meetingTime = None
      \<longrightarrow> sublist ''Invalid Date'' (paymentConfirmed rt hour nome meetingDate meetingTime))
   \<and> (m_message_type msg = PAYMENT_CONFIRMED \<and> li_meetings li = mt # mts
      \<longrightarrow> generateMessageText rt hour msg li
           = Some (paymentConfirmed rt hour (l_nome (li_lead li)) (mt_meeting_date mt) (mt_meeting_time mt)))"
proof (intro conjI impI)
  assume "newDate rt meetingDate = None"
  then have "paymentConfirmed rt hour nome meetingDate meetingTime
    = (''Ola '' @ getFirstName nome @ '', '' @ toLowerCase (getGreeting hour)
         @ '', tudo bom? Vi que voce efetivou a compra da otimizacao, seu horario e as ''
         @ toLocaleTimeString rt (newDate rt meetingTime)
         @ '' e demoramos 4 horas pra fazer a otimizacao, caso queira remarcar, so me avisar, te espero no dia '')
       @ ''Invalid Date'' @ ('' as '' @ toLocaleTimeString rt (newDate rt meetingTime) @ '' pelo discord, forte abraco'')"
    by (simp add: paymentConfirmed_def toLocaleDateString_def Let_def)
  then show "sublist ''Invalid Date'' (paymentConfirmed rt hour nome meetingDate meetingTime)"
    by (simp only: sublist_appendI)
next
  assume "newDate rt meetingTime = None"
  then have "paymentConfirmed rt hour nome meetingDate meetingTime
    = (''Ola '' @ getFirstName nome @ '', '' @ toLowerCase (getGreeting hour)
         @ '', tudo bom? Vi que voce efetivou a compra da otimizacao, seu horario e as '')
       @ ''Invalid Date''
       @ ('' e demoramos 4 horas pra fazer a otimizacao, caso queira remarcar, so me avisar, te espero no dia ''
          @ toLocaleDateString rt (newDate rt meetingDate) @ '' as '' @ ''Invalid Date'' @ '' pelo discord, forte abraco'')"
    by (simp add: paymentConfirmed_def toLocaleTimeString_def Let_def)
  then show "sublist ''Invalid Date'' (paymentConfirmed rt hour nome meetingDate meetingTime)"
    by (simp only: sublist_appendI)
next
  assume "m_message_type msg = PAYMENT_CONFIRMED \<and> li_meetings li = mt # mts"
  then show "generateMessageText rt hour msg li
           = Some (paymentConfirmed rt hour (l_nome (li_lead li)) (mt_meeting_date mt) (mt_meeting_time mt))"
    by (simp add: generateMessageText_def)
qed

theorem confirmation_renders_invalid_date_witness:
  "newDate sample_runtime JUndefined = None
   \<and> newDate sample_runtime (JDate None) = None
   \<and> sublist ''Invalid Date'' (paymentConfirmed sample_runtime 9 ''Ana Silva'' JUndefined (JDate None))
   \<and> m_message_type (msg_of 5 PAYMENT_CONFIRMED PENDING 4000) = PAYMENT_CONFIRMED
   \<and> generateMessageText sample_runtime 9 (msg_of 5 PAYMENT_CONFIRMED PENDING 4000)
        \<lparr> li_lead = sample_lead, li_transactions = [], li_meetings = [meeting_of JUndefined (JDate None)] \<rparr>
      = Some (paymentConfirmed sample_runtime 9 ''Ana Silva'' JUndefined (JDate None))"
proof -
  have h1: "newDate sample_runtime JUndefined = None" by simp
  have h2: "newDate sample_runtime (JDate None) = None" by simp
  have h3: "m_message_type (msg_of 5 PAYMENT_CONFIRMED PENDING 4000) = PAYMENT_CONFIRMED
            \<and> li_meetings \<lparr> li_lead = sample_lead, li_transactions = [],
                             li_meetings = [meeting_of JUndefined (JDate None)] \<rparr>
              = meeting_of JUndefined (JDate None) # []"
    by (simp add: msg_of_def)
  note t = confirmation_renders_invalid_date
     [of sample_runtime JUndefined 9 "''Ana Silva''" "JDate None"
         "msg_of 5 PAYMENT_CONFIRMED PENDING 4000"
         "\<lparr> li_lead = sample_lead, li_transactions = [],
            li_meetings = [meeting_of JUndefined (JDate None)] \<rparr>"
         "meeting_of JUndefined (JDate None)" "[]"]
  from t h1 have a: "sublist ''Invalid Date''
      (paymentConfirmed sample_runtime 9 ''Ana Silva'' JUndefined (JDate None))"
    by blast
  from t h3 have "generateMessageText sample_runtime 9 (msg_of 5 PAYMENT_CONFIRMED PENDING 4000)
        \<lparr> li_lead = sample_lead, li_transactions = [], li_meetings = [meeting_of JUndefined (JDate None)] \<rparr>
      = Some (paymentConfirmed sample_runtime 9
               (l_nome (li_lead \<lparr> li_lead = sample_lead, li_transactions = [],
                                   li_meetings = [meeting_of JUndefined (JDate None)] \<rparr>))
               (mt_meeting_date (meeting_of JUndefined (JDate None)))
               (mt_meeting_time (meeting_of JUndefined (JDate None))))"
    by blast
  then have b: "generateMessageText sample_runtime 9 (msg_of 5 PAYMENT_CONFIRMED PENDING 4000)
        \<lparr> li_lead = sample_lead, li_transactions = [], li_meetings = [meeting_of JUndefined (JDate None)] \<rparr>
      = Some (paymentConfirmed sample_runtime 9 ''Ana Silva'' JUndefined (JDate None))"
    by (simp add: meeting_of_def sample_lead_def)
  from h1 h2 h3 a b show ?thesis by simp
qed

end
